theory Spec2Isabelle
  imports Complex_Main
begin

section \<open>Errors and outcomes\<close>

text \<open>
  The exceptions raised by \<^verbatim>\<open>abtem/base_classes.py\<close>. A \<^verbatim>\<open>RuntimeError\<close> carries
  its message; where the source formats values into the message, the model
  carries the format string itself. \<^verbatim>\<open>ZeroDivisionError\<close> is what Python's
  \<^verbatim>\<open>/\<close> raises on a zero divisor, \<^verbatim>\<open>KeyError\<close> what a dictionary raises on a
  missing key and what \<^verbatim>\<open>OrderedDict.popitem\<close> raises on an empty dictionary.

  A method that mutates its object is a function from the state before the call
  to a pair: \<open>None\<close> or the exception raised, and the state at that moment. An
  exception does not undo the mutations made before it.
\<close>

datatype error = RuntimeError string | ZeroDivisionError | KeyError

section \<open>Event\<close>

text \<open>
  The keyword arguments of \<^verbatim>\<open>Event.notify\<close> as the decorators pass them. The
  \<^verbatim>\<open>notifier\<close> argument (a reference to the notifying object) is left out: no
  callback of this module reads it.
\<close>

record notification =
  property_name :: string
  change :: bool

text \<open>
  A callback runs on the state \<open>'w\<close> of the objects it closes over, and may raise.
\<close>

type_synonym 'w callback = "notification \<Rightarrow> 'w \<Rightarrow> error option \<times> 'w"

record 'w Event =
  callbacks :: "'w callback list"
  u_notify_count :: nat

definition Event_init :: "'w Event" where
  "Event_init = \<lparr>callbacks = [], u_notify_count = 0\<rparr>"

definition notify_count :: "'w Event \<Rightarrow> nat" where
  "notify_count ev = u_notify_count ev"

text \<open>The \<^verbatim>\<open>for callback in self.callbacks\<close> loop: the first exception ends it.\<close>

fun run_callbacks :: "'w callback list \<Rightarrow> notification \<Rightarrow> 'w \<Rightarrow> error option \<times> 'w" where
  "run_callbacks [] n w = (None, w)"
| "run_callbacks (cb # cbs) n w =
     (case cb n w of
        (None, w') \<Rightarrow> run_callbacks cbs n w'
      | (Some e, w') \<Rightarrow> (Some e, w'))"

definition notify :: "notification \<Rightarrow> 'w Event \<times> 'w \<Rightarrow> error option \<times> ('w Event \<times> 'w)" where
  "notify n = (\<lambda>(ev, w).
     let ev' = ev\<lparr>u_notify_count := u_notify_count ev + 1\<rparr>;
         (r, w') = run_callbacks (callbacks ev') n w
     in (r, (ev', w')))"

definition register :: "'w callback list \<Rightarrow> 'w Event \<Rightarrow> 'w Event" where
  "register cbs ev = ev\<lparr>callbacks := callbacks ev @ cbs\<rparr>"

section \<open>Cache\<close>

text \<open>
  The \<^verbatim>\<open>OrderedDict\<close> is an association list in insertion order, with distinct
  keys. \<^verbatim>\<open>max_size\<close> is an \<^verbatim>\<open>int\<close> or \<^verbatim>\<open>None\<close>.
\<close>

record ('k, 'v) Cache =
  u_max_size :: "int option"
  u_cached :: "('k \<times> 'v) list"
  u_hits :: nat
  u_misses :: nat

definition Cache_init :: "int option \<Rightarrow> ('k, 'v) Cache" where
  "Cache_init max_size = \<lparr>u_max_size = max_size, u_cached = [], u_hits = 0, u_misses = 0\<rparr>"

definition cached :: "('k, 'v) Cache \<Rightarrow> ('k \<times> 'v) list" where
  "cached c = u_cached c"

definition hits :: "('k, 'v) Cache \<Rightarrow> nat" where
  "hits c = u_hits c"

text \<open>The property \<^verbatim>\<open>misses\<close> of the source returns \<^verbatim>\<open>self._hits\<close>.\<close>

definition misses :: "('k, 'v) Cache \<Rightarrow> nat" where
  "misses c = u_hits c"

definition len :: "('k, 'v) Cache \<Rightarrow> int" where
  "len c = int (length (u_cached c))"

text \<open>
  \<^verbatim>\<open>d[key] = value\<close> on an \<^verbatim>\<open>OrderedDict\<close>: a present key keeps its place and
  takes the new value, a new key goes to the end.
\<close>

fun setitem :: "('k \<times> 'v) list \<Rightarrow> 'k \<Rightarrow> 'v \<Rightarrow> ('k \<times> 'v) list" where
  "setitem [] k v = [(k, v)]"
| "setitem ((k', v') # xs) k v =
     (if k' = k then (k', v) # xs else (k', v') # setitem xs k v)"

text \<open>
  \<^verbatim>\<open>while len(self) > self._max_size: self._cached.popitem(last=False)\<close>.
  \<^verbatim>\<open>popitem\<close> removes the oldest entry and raises \<^verbatim>\<open>KeyError\<close> on an empty
  dictionary, which a negative \<^verbatim>\<open>max_size\<close> leads to.
\<close>

function check_size_loop :: "int \<Rightarrow> ('k, 'v) Cache \<Rightarrow> error option \<times> ('k, 'v) Cache" where
  "check_size_loop m c =
     (if len c > m then
        (case u_cached c of
           [] \<Rightarrow> (Some KeyError, c)
         | x # rest \<Rightarrow> check_size_loop m (c\<lparr>u_cached := rest\<rparr>))
      else (None, c))"
  by pat_completeness auto
termination
  by (relation "measure (\<lambda>(m, c). length (u_cached c))") auto

declare check_size_loop.simps [simp del]

definition check_size :: "('k, 'v) Cache \<Rightarrow> error option \<times> ('k, 'v) Cache" where
  "check_size c =
     (case u_max_size c of
        None \<Rightarrow> (None, c)
      | Some m \<Rightarrow> check_size_loop m c)"

definition insert_c :: "'k \<Rightarrow> 'v \<Rightarrow> ('k, 'v) Cache \<Rightarrow> error option \<times> ('k, 'v) Cache" where
  "insert_c key val c = check_size (c\<lparr>u_cached := setitem (u_cached c) key val\<rparr>)"

definition retrieve :: "'k \<Rightarrow> ('k, 'v) Cache \<Rightarrow> error + 'v" where
  "retrieve key c =
     (case map_of (u_cached c) key of
        None \<Rightarrow> Inl KeyError
      | Some v \<Rightarrow> Inr v)"

definition clear :: "('k, 'v) Cache \<Rightarrow> ('k, 'v) Cache" where
  "clear c = c\<lparr>u_cached := [], u_hits := 0, u_misses := 0\<rparr>"

text \<open>A sequence of \<^verbatim>\<open>insert\<close> calls; the first exception ends it.\<close>

fun inserts :: "('k \<times> 'v) list \<Rightarrow> ('k, 'v) Cache \<Rightarrow> error option \<times> ('k, 'v) Cache" where
  "inserts [] c = (None, c)"
| "inserts ((k, v) # kvs) c =
     (case insert_c k v c of
        (None, c') \<Rightarrow> inserts kvs c'
      | (Some e, c') \<Rightarrow> (Some e, c'))"

subsection \<open>The cache-clearing callback\<close>

text \<open>
  Caches are mutable objects that callbacks hold by reference: a store maps each
  reference to the cache's current state. \<^verbatim>\<open>cache_clear_callback(target_cache)\<close>
  closes over the reference.
\<close>

type_synonym ('k, 'v) store = "nat \<Rightarrow> ('k, 'v) Cache"

definition cache_clear_callback :: "nat \<Rightarrow> ('k, 'v) store callback" where
  "cache_clear_callback target_cache = (\<lambda>n h.
     if change n then (None, h(target_cache := clear (h target_cache)))
     else (None, h))"


subsection \<open>The memoizing decorator\<close>

text \<open>
  \<^verbatim>\<open>cached_method(target_cache_property)(func)\<close>. The receiver \<open>self\<close> is a state \<open>'r\<close>;
  \<open>get_cache\<close> and \<open>put_cache\<close> read and write the cache that the target property of
  the receiver holds. The key is the identity of \<^verbatim>\<open>func\<close> and the arguments after
  the receiver. The decorated function may change the receiver and may raise.
\<close>

definition cached_method ::
  "('r \<Rightarrow> ('i \<times> 'a, 'v) Cache) \<Rightarrow> (('i \<times> 'a, 'v) Cache \<Rightarrow> 'r \<Rightarrow> 'r) \<Rightarrow>
   'i \<Rightarrow> ('r \<Rightarrow> 'a \<Rightarrow> (error + 'v) \<times> 'r) \<Rightarrow> 'r \<Rightarrow> 'a \<Rightarrow> (error + 'v) \<times> 'r" where
  "cached_method get_cache put_cache func_id func self args =
     (let key = (func_id, args) in
      if map_of (cached (get_cache self)) key \<noteq> None then
        (case retrieve key (get_cache self) of
           Inl e \<Rightarrow> (Inl e, self)
         | Inr result \<Rightarrow>
             (Inr result, put_cache ((get_cache self)\<lparr>u_hits := u_hits (get_cache self) + 1\<rparr>) self))
      else
        (case func self args of
           (Inl e, self') \<Rightarrow> (Inl e, self')
         | (Inr result, self') \<Rightarrow>
             (case insert_c key result (get_cache self') of
                (Some e, c') \<Rightarrow> (Inl e, put_cache c' self')
              | (None, c') \<Rightarrow> (Inr result, put_cache (c'\<lparr>u_misses := u_misses c' + 1\<rparr>) self'))))"

section \<open>The notifying decorator\<close>

text \<open>
  \<^verbatim>\<open>watched_method(event)(func)\<close>: run \<^verbatim>\<open>func\<close>; if it returns, notify the event of
  the instance with \<^verbatim>\<open>change=True\<close>. An exception of \<^verbatim>\<open>func\<close> leaves before the
  notification. The event attribute is given by its getter and its updater; the
  instance \<open>'s\<close> and the state \<open>'w\<close> the callbacks run on are separate.
\<close>

definition watched_method ::
  "('s \<Rightarrow> 'w Event) \<Rightarrow> ('w Event \<Rightarrow> 's \<Rightarrow> 's) \<Rightarrow> string \<Rightarrow>
   ('s \<Rightarrow> error option \<times> 's) \<Rightarrow> 's \<times> 'w \<Rightarrow> error option \<times> ('s \<times> 'w)" where
  "watched_method get_event put_event name func = (\<lambda>(instance, w).
     case func instance of
       (Some e, instance') \<Rightarrow> (Some e, (instance', w))
     | (None, instance') \<Rightarrow>
         (case notify \<lparr>property_name = name, change = True\<rparr> (get_event instance', w) of
            (r, (ev, w')) \<Rightarrow> (r, (put_event ev instance', w'))))"

section \<open>Floating-point arithmetic\<close>

text \<open>
  Python's \<^verbatim>\<open>float\<close> is an abstract type \<open>'f\<close>. The module computes with floats in
  three expressions only, which are parameters of the model:
  \<^verbatim>\<open>n * d\<close> (\<open>mul_int\<close>), \<^verbatim>\<open>l / n\<close> for a nonzero \<^verbatim>\<open>int\<close> \<^verbatim>\<open>n\<close> (\<open>div_int\<close>), and
  \<^verbatim>\<open>int(np.ceil(l / d))\<close> for a nonzero float \<^verbatim>\<open>d\<close> (\<open>ceil_div\<close>); \<open>is_zero d\<close> is
  \<^verbatim>\<open>d == 0\<close>. A zero divisor raises \<^verbatim>\<open>ZeroDivisionError\<close>, which the model writes
  out. Floats are taken to be finite and the integers to fit a float, so that
  nothing else raises; equality of floats is equality of values.
\<close>

record 'f float_ops =
  is_zero :: "'f \<Rightarrow> bool"
  mul_int :: "int \<Rightarrow> 'f \<Rightarrow> 'f"
  div_int :: "'f \<Rightarrow> int \<Rightarrow> 'f"
  ceil_div :: "'f \<Rightarrow> 'f \<Rightarrow> int"

text \<open>Exact rational arithmetic, for running the model on concrete grids.\<close>

definition exact_ops :: "rat float_ops" where
  "exact_ops = \<lparr>is_zero = (\<lambda>d. d = 0),
                 mul_int = (\<lambda>n d. of_int n * d),
                 div_int = (\<lambda>l n. l / of_int n),
                 ceil_div = (\<lambda>l d. \<lceil>l / d\<rceil>)\<rparr>"

text \<open>
  \<^verbatim>\<open>tuple(f(x) for x in xs)\<close> where \<^verbatim>\<open>f\<close> may raise: the first exception leaves
  the comprehension.
\<close>

fun gen_tuple :: "('a \<Rightarrow> error + 'b) \<Rightarrow> 'a list \<Rightarrow> error + 'b list" where
  "gen_tuple f [] = Inr []"
| "gen_tuple f (x # xs) =
     (case f x of
        Inl e \<Rightarrow> Inl e
      | Inr y \<Rightarrow> (case gen_tuple f xs of Inl e \<Rightarrow> Inl e | Inr ys \<Rightarrow> Inr (y # ys)))"

text \<open>Sequencing of two statements on a state: an exception skips the second.\<close>

definition seq :: "('s \<Rightarrow> error option \<times> 's) \<Rightarrow> ('s \<Rightarrow> error option \<times> 's) \<Rightarrow> 's \<Rightarrow> error option \<times> 's" where
  "seq p q s = (case p s of (None, s') \<Rightarrow> q s' | (Some e, s') \<Rightarrow> (Some e, s'))"

section \<open>Grid\<close>

text \<open>
  A value passed to the constructor or to a setter: a sequence (\<^verbatim>\<open>list\<close>, \<^verbatim>\<open>tuple\<close>,
  \<^verbatim>\<open>ndarray\<close>), a number, \<^verbatim>\<open>None\<close>, or anything else. The elements already have the
  target type (\<^verbatim>\<open>float\<close> for extent and sampling, \<^verbatim>\<open>int\<close> for gpts), so the
  conversion \<^verbatim>\<open>dtype(value)\<close> is the identity.
\<close>

datatype 'a arg = Seq "'a list" | Scalar 'a | NoneArg | Invalid

record ('f, 'w) Grid =
  changed :: "'w Event"
  u_dimensions :: int
  u_endpoint :: bool
  u_lock_extent :: bool
  u_lock_gpts :: bool
  u_lock_sampling :: bool
  u_extent :: "'f list option"
  u_gpts :: "int list option"
  u_sampling :: "'f list option"

text \<open>
  The read-only properties \<^verbatim>\<open>extent\<close>, \<^verbatim>\<open>gpts\<close>, \<^verbatim>\<open>sampling\<close>, \<^verbatim>\<open>dimensions\<close> and
  \<^verbatim>\<open>endpoint\<close> return the fields; the model reads the fields.
\<close>

definition validate :: "int \<Rightarrow> 'a arg \<Rightarrow> error + 'a list option" where
  "validate dimensions v =
     (case v of
        Seq xs \<Rightarrow>
          if int (length xs) \<noteq> dimensions
          then Inl (RuntimeError ''Grid value length of {} != {}'')
          else Inr (Some xs)
      | Scalar x \<Rightarrow> Inr (Some (replicate (nat dimensions) x))
      | NoneArg \<Rightarrow> Inr None
      | Invalid \<Rightarrow> Inl (RuntimeError ''Invalid grid property ({})''))"

definition adjust_extent ::
  "'f float_ops \<Rightarrow> int list option \<Rightarrow> 'f list option \<Rightarrow> ('f, 'w) Grid \<Rightarrow> ('f, 'w) Grid" where
  "adjust_extent A gp sm g =
     (case (gp, sm) of
        (Some ns, Some ds) \<Rightarrow>
          if u_endpoint g
          then g\<lparr>u_extent := Some (map (\<lambda>(n, d). mul_int A (n - 1) d) (zip ns ds))\<rparr>
          else g\<lparr>u_extent := Some (map (\<lambda>(n, d). mul_int A n d) (zip ns ds))\<rparr>
      | _ \<Rightarrow> g)"

definition adjust_gpts ::
  "'f float_ops \<Rightarrow> 'f list option \<Rightarrow> 'f list option \<Rightarrow> ('f, 'w) Grid \<Rightarrow> error option \<times> ('f, 'w) Grid" where
  "adjust_gpts A ext sm g =
     (case (ext, sm) of
        (Some ls, Some ds) \<Rightarrow>
          (case (if u_endpoint g
                 then gen_tuple (\<lambda>(l, d). if is_zero A d then Inl ZeroDivisionError
                                           else Inr (ceil_div A l d + 1)) (zip ls ds)
                 else gen_tuple (\<lambda>(l, d). if is_zero A d then Inl ZeroDivisionError
                                           else Inr (ceil_div A l d)) (zip ls ds)) of
             Inl e \<Rightarrow> (Some e, g)
           | Inr ns \<Rightarrow> (None, g\<lparr>u_gpts := Some ns\<rparr>))
      | _ \<Rightarrow> (None, g))"

definition adjust_sampling ::
  "'f float_ops \<Rightarrow> 'f list option \<Rightarrow> int list option \<Rightarrow> ('f, 'w) Grid \<Rightarrow> error option \<times> ('f, 'w) Grid" where
  "adjust_sampling A ext gp g =
     (case (ext, gp) of
        (Some ls, Some ns) \<Rightarrow>
          (case (if u_endpoint g
                 then gen_tuple (\<lambda>(l, n). if n - 1 = 0 then Inl ZeroDivisionError
                                           else Inr (div_int A l (n - 1))) (zip ls ns)
                 else gen_tuple (\<lambda>(l, n). if n = 0 then Inl ZeroDivisionError
                                           else Inr (div_int A l n)) (zip ls ns)) of
             Inl e \<Rightarrow> (Some e, g)
           | Inr ds \<Rightarrow> (None, g\<lparr>u_sampling := Some ds\<rparr>))
      | _ \<Rightarrow> (None, g))"

text \<open>
  \<^verbatim>\<open>Grid.__init__\<close>. An exception in the constructor leaves no object, so the
  result is the exception or the grid.
\<close>

definition Grid_init ::
  "'f float_ops \<Rightarrow> 'f arg \<Rightarrow> int arg \<Rightarrow> 'f arg \<Rightarrow> int \<Rightarrow> bool \<Rightarrow> bool \<Rightarrow> bool \<Rightarrow> bool \<Rightarrow>
   error + ('f, 'w) Grid" where
  "Grid_init A extent gpts sampling dimensions endpoint lock_extent lock_gpts lock_sampling =
     (if (of_bool lock_extent + of_bool lock_gpts + of_bool lock_sampling :: nat) > 1
      then Inl (RuntimeError ''At most one of extent, gpts, and sampling may be locked'')
      else
        case validate dimensions extent of Inl e \<Rightarrow> Inl e | Inr ext \<Rightarrow>
        case validate dimensions gpts of Inl e \<Rightarrow> Inl e | Inr gp \<Rightarrow>
        case validate dimensions sampling of Inl e \<Rightarrow> Inl e | Inr sm \<Rightarrow>
          let g1 = \<lparr>changed = Event_init, u_dimensions = dimensions, u_endpoint = endpoint,
                    u_lock_extent = lock_extent, u_lock_gpts = lock_gpts,
                    u_lock_sampling = lock_sampling,
                    u_extent = ext, u_gpts = gp, u_sampling = sm\<rparr>;
              g2 = (if u_extent g1 = None then adjust_extent A (u_gpts g1) (u_sampling g1) g1
                    else g1)
          in case (if u_gpts g2 = None then adjust_gpts A (u_extent g2) (u_sampling g2) g2
                   else (None, g2)) of
               (Some e, g3) \<Rightarrow> Inl e
             | (None, g3) \<Rightarrow>
                 (case adjust_sampling A (u_extent g3) (u_gpts g3) g3 of
                    (Some e, g4) \<Rightarrow> Inl e
                  | (None, g4) \<Rightarrow> Inr g4))"

subsection \<open>The setters\<close>

text \<open>
  For each of the three properties, \<open>_func\<close> is the body of the setter and \<open>set_\<close>
  the setter as decorated with \<^verbatim>\<open>@watched_method('changed')\<close>, which is what an
  assignment \<^verbatim>\<open>grid.extent = value\<close> runs.
\<close>

definition extent_func :: "'f float_ops \<Rightarrow> 'f arg \<Rightarrow> ('f, 'w) Grid \<Rightarrow> error option \<times> ('f, 'w) Grid" where
  "extent_func A v g =
     (if u_lock_extent g then (Some (RuntimeError ''Extent cannot be modified''), g)
      else
        case validate (u_dimensions g) v of
          Inl e \<Rightarrow> (Some e, g)
        | Inr extent \<Rightarrow>
            if u_lock_sampling g \<or> u_gpts g = None then
              seq (adjust_gpts A extent (u_sampling g))
                (seq (\<lambda>g. adjust_sampling A extent (u_gpts g) g)
                     (\<lambda>g. (None, g\<lparr>u_extent := extent\<rparr>))) g
            else if u_gpts g \<noteq> None then
              seq (adjust_sampling A extent (u_gpts g))
                  (\<lambda>g. (None, g\<lparr>u_extent := extent\<rparr>)) g
            else (None, g\<lparr>u_extent := extent\<rparr>))"

definition gpts_func :: "'f float_ops \<Rightarrow> int arg \<Rightarrow> ('f, 'w) Grid \<Rightarrow> error option \<times> ('f, 'w) Grid" where
  "gpts_func A v g =
     (if u_lock_gpts g then (Some (RuntimeError ''Grid gpts cannot be modified''), g)
      else
        case validate (u_dimensions g) v of
          Inl e \<Rightarrow> (Some e, g)
        | Inr gpts \<Rightarrow>
            if u_lock_sampling g then
              (None, (adjust_extent A gpts (u_sampling g) g)\<lparr>u_gpts := gpts\<rparr>)
            else if u_extent g \<noteq> None then
              seq (adjust_sampling A (u_extent g) gpts)
                  (\<lambda>g. (None, g\<lparr>u_gpts := gpts\<rparr>)) g
            else (None, (adjust_extent A gpts (u_sampling g) g)\<lparr>u_gpts := gpts\<rparr>))"

text \<open>
  The sampling setter never stores its argument: it adjusts extent or gpts, and
  then derives the sampling from these two.
\<close>

definition sampling_func :: "'f float_ops \<Rightarrow> 'f arg \<Rightarrow> ('f, 'w) Grid \<Rightarrow> error option \<times> ('f, 'w) Grid" where
  "sampling_func A v g =
     (if u_lock_sampling g then (Some (RuntimeError ''Sampling cannot be modified''), g)
      else
        case validate (u_dimensions g) v of
          Inl e \<Rightarrow> (Some e, g)
        | Inr sampling \<Rightarrow>
            seq (if u_lock_gpts g then (\<lambda>g. (None, adjust_extent A (u_gpts g) sampling g))
                 else if u_extent g \<noteq> None then adjust_gpts A (u_extent g) sampling
                 else (\<lambda>g. (None, adjust_extent A (u_gpts g) sampling g)))
                (\<lambda>g. adjust_sampling A (u_extent g) (u_gpts g) g) g)"

definition put_changed :: "'w Event \<Rightarrow> ('f, 'w) Grid \<Rightarrow> ('f, 'w) Grid" where
  "put_changed ev g = g\<lparr>changed := ev\<rparr>"

definition set_extent ::
  "'f float_ops \<Rightarrow> 'f arg \<Rightarrow> ('f, 'w) Grid \<times> 'w \<Rightarrow> error option \<times> (('f, 'w) Grid \<times> 'w)" where
  "set_extent A v = watched_method changed put_changed ''extent'' (extent_func A v)"

definition set_gpts ::
  "'f float_ops \<Rightarrow> int arg \<Rightarrow> ('f, 'w) Grid \<times> 'w \<Rightarrow> error option \<times> (('f, 'w) Grid \<times> 'w)" where
  "set_gpts A v = watched_method changed put_changed ''gpts'' (gpts_func A v)"

definition set_sampling ::
  "'f float_ops \<Rightarrow> 'f arg \<Rightarrow> ('f, 'w) Grid \<times> 'w \<Rightarrow> error option \<times> (('f, 'w) Grid \<times> 'w)" where
  "set_sampling A v = watched_method changed put_changed ''sampling'' (sampling_func A v)"

subsection \<open>Matching two grids\<close>

text \<open>
  \<^verbatim>\<open>self.match(other)\<close> runs on the two grids and on the state of the callbacks.
  The two grids are distinct objects. A stored tuple or \<^verbatim>\<open>None\<close> read from one grid
  is the value assigned to the other.
\<close>

definition as_arg :: "'a list option \<Rightarrow> 'a arg" where
  "as_arg x = (case x of None \<Rightarrow> NoneArg | Some xs \<Rightarrow> Seq xs)"

definition on_self ::
  "('a \<times> 'w \<Rightarrow> error option \<times> ('a \<times> 'w)) \<Rightarrow> 'a \<times> 'b \<times> 'w \<Rightarrow> error option \<times> ('a \<times> 'b \<times> 'w)" where
  "on_self p = (\<lambda>(a, b, w). case p (a, w) of (r, (a', w')) \<Rightarrow> (r, (a', b, w')))"

definition on_other ::
  "('b \<times> 'w \<Rightarrow> error option \<times> ('b \<times> 'w)) \<Rightarrow> 'a \<times> 'b \<times> 'w \<Rightarrow> error option \<times> ('a \<times> 'b \<times> 'w)" where
  "on_other p = (\<lambda>(a, b, w). case p (b, w) of (r, (b', w')) \<Rightarrow> (r, (a, b', w')))"

definition check_match ::
  "('f, 'w) Grid \<times> ('f, 'w) Grid \<times> 'w \<Rightarrow> error option \<times> (('f, 'w) Grid \<times> ('f, 'w) Grid \<times> 'w)" where
  "check_match = (\<lambda>(self, other, w).
     if u_extent self \<noteq> None \<and> u_extent other \<noteq> None \<and> u_extent self \<noteq> u_extent other
     then (Some (RuntimeError ''Inconsistent grid extent ({} != {})''), (self, other, w))
     else if u_gpts self \<noteq> None \<and> u_gpts other \<noteq> None \<and> u_gpts self \<noteq> u_gpts other
     then (Some (RuntimeError ''Inconsistent grid gpts ({} != {})''), (self, other, w))
     else (None, (self, other, w)))"

definition match_extent ::
  "'f float_ops \<Rightarrow> ('f, 'w) Grid \<times> ('f, 'w) Grid \<times> 'w \<Rightarrow>
   error option \<times> (('f, 'w) Grid \<times> ('f, 'w) Grid \<times> 'w)" where
  "match_extent A = (\<lambda>(self, other, w).
     if u_extent self = None \<and> u_extent other = None
     then (Some (RuntimeError ''Grid extent cannot be inferred''), (self, other, w))
     else if u_extent other = None
     then on_other (set_extent A (as_arg (u_extent self))) (self, other, w)
     else if u_extent self \<noteq> u_extent other
     then on_self (set_extent A (as_arg (u_extent other))) (self, other, w)
     else (None, (self, other, w)))"

definition match_gpts ::
  "'f float_ops \<Rightarrow> ('f, 'w) Grid \<times> ('f, 'w) Grid \<times> 'w \<Rightarrow>
   error option \<times> (('f, 'w) Grid \<times> ('f, 'w) Grid \<times> 'w)" where
  "match_gpts A = (\<lambda>(self, other, w).
     if u_gpts self = None \<and> u_gpts other = None
     then (Some (RuntimeError ''Grid gpts cannot be inferred''), (self, other, w))
     else if u_gpts other = None
     then on_other (set_gpts A (as_arg (u_gpts self))) (self, other, w)
     else if u_gpts self \<noteq> u_gpts other
     then on_self (set_gpts A (as_arg (u_gpts other))) (self, other, w)
     else (None, (self, other, w)))"

text \<open>
  \<^verbatim>\<open>Grid.match\<close>: the optional check, then the \<^verbatim>\<open>if\<close> chain on the extents, then
  the \<^verbatim>\<open>if\<close> chain on the gpts.
\<close>

definition match ::
  "'f float_ops \<Rightarrow> bool \<Rightarrow> ('f, 'w) Grid \<times> ('f, 'w) Grid \<times> 'w \<Rightarrow>
   error option \<times> (('f, 'w) Grid \<times> ('f, 'w) Grid \<times> 'w)" where
  "match A do_check_match =
     seq (if do_check_match then check_match else (\<lambda>s. (None, s)))
         (seq (match_extent A) (match_gpts A))"

subsection \<open>Assignments to a grid\<close>

text \<open>One of the three assignments \<^verbatim>\<open>grid.extent = v\<close>, \<^verbatim>\<open>grid.gpts = v\<close>, \<^verbatim>\<open>grid.sampling = v\<close>.\<close>

datatype 'f assignment = Set_extent "'f arg" | Set_gpts "int arg" | Set_sampling "'f arg"

fun assign_func :: "'f float_ops \<Rightarrow> 'f assignment \<Rightarrow> ('f, 'w) Grid \<Rightarrow> error option \<times> ('f, 'w) Grid" where
  "assign_func A (Set_extent v) = extent_func A v"
| "assign_func A (Set_gpts v) = gpts_func A v"
| "assign_func A (Set_sampling v) = sampling_func A v"

fun assign ::
  "'f float_ops \<Rightarrow> 'f assignment \<Rightarrow> ('f, 'w) Grid \<times> 'w \<Rightarrow> error option \<times> (('f, 'w) Grid \<times> 'w)" where
  "assign A (Set_extent v) = set_extent A v"
| "assign A (Set_gpts v) = set_gpts A v"
| "assign A (Set_sampling v) = set_sampling A v"

section \<open>Accelerator\<close>

record ('f, 'w) Accelerator =
  acc_changed :: "'w Event"
  u_energy :: "'f option"
  u_lock_energy :: bool

definition Accelerator_init :: "'f option \<Rightarrow> bool \<Rightarrow> ('f, 'w) Accelerator" where
  "Accelerator_init energy lock_energy =
     \<lparr>acc_changed = Event_init, u_energy = energy, u_lock_energy = lock_energy\<rparr>"

definition energy_func ::
  "'f option \<Rightarrow> ('f, 'w) Accelerator \<Rightarrow> error option \<times> ('f, 'w) Accelerator" where
  "energy_func v a =
     (if u_lock_energy a then (Some (RuntimeError ''Energy cannot be modified''), a)
      else (None, a\<lparr>u_energy := v\<rparr>))"

definition put_acc_changed :: "'w Event \<Rightarrow> ('f, 'w) Accelerator \<Rightarrow> ('f, 'w) Accelerator" where
  "put_acc_changed ev a = a\<lparr>acc_changed := ev\<rparr>"

definition set_energy ::
  "'f option \<Rightarrow> ('f, 'w) Accelerator \<times> 'w \<Rightarrow> error option \<times> (('f, 'w) Accelerator \<times> 'w)" where
  "set_energy v = watched_method acc_changed put_acc_changed ''energy'' (energy_func v)"

definition acc_check_match ::
  "('f, 'w) Accelerator \<times> ('f, 'w) Accelerator \<times> 'w \<Rightarrow>
   error option \<times> (('f, 'w) Accelerator \<times> ('f, 'w) Accelerator \<times> 'w)" where
  "acc_check_match = (\<lambda>(self, other, w).
     if u_energy self \<noteq> None \<and> u_energy other \<noteq> None \<and> u_energy self \<noteq> u_energy other
     then (Some (RuntimeError ''Inconsistent energies''), (self, other, w))
     else (None, (self, other, w)))"

definition acc_match ::
  "bool \<Rightarrow> ('f, 'w) Accelerator \<times> ('f, 'w) Accelerator \<times> 'w \<Rightarrow>
   error option \<times> (('f, 'w) Accelerator \<times> ('f, 'w) Accelerator \<times> 'w)" where
  "acc_match do_check_match =
     seq (if do_check_match then acc_check_match else (\<lambda>s. (None, s)))
         (\<lambda>(self, other, w).
            if u_energy self = None \<and> u_energy other = None
            then (Some (RuntimeError ''Energy cannot be inferred''), (self, other, w))
            else if u_energy other = None
            then on_other (set_energy (u_energy self)) (self, other, w)
            else on_self (set_energy (u_energy other)) (self, other, w))"

section \<open>A simulation object with a grid and a cache\<close>

text \<open>
  The classes of this module are used by objects that own a grid and a cache,
  decorate their methods with \<^verbatim>\<open>cached_method\<close>, and register
  \<^verbatim>\<open>cache_clear_callback(self._cache)\<close> on the grid's \<^verbatim>\<open>changed\<close> event. Such an object
  is a record: \<open>s_cache\<close> is the reference to its cache, \<open>s_store\<close> the state of the
  caches. \<open>s_calls\<close> is not a field of the program: it counts the runs of the
  memoized computation.
\<close>

record ('f, 'i, 'a, 'v) Sim =
  s_grid :: "('f, ('i \<times> 'a, 'v) store) Grid"
  s_store :: "('i \<times> 'a, 'v) store"
  s_cache :: nat
  s_calls :: nat

definition get_cache :: "('f, 'i, 'a, 'v) Sim \<Rightarrow> ('i \<times> 'a, 'v) Cache" where
  "get_cache self = s_store self (s_cache self)"

definition put_cache :: "('i \<times> 'a, 'v) Cache \<Rightarrow> ('f, 'i, 'a, 'v) Sim \<Rightarrow> ('f, 'i, 'a, 'v) Sim" where
  "put_cache c self = self\<lparr>s_store := (s_store self)(s_cache self := c)\<rparr>"

text \<open>A computation that returns \<open>f self args\<close> and changes nothing, counted.\<close>

definition counted ::
  "(('f, 'i, 'a, 'v) Sim \<Rightarrow> 'a \<Rightarrow> 'v) \<Rightarrow> ('f, 'i, 'a, 'v) Sim \<Rightarrow> 'a \<Rightarrow> (error + 'v) \<times> ('f, 'i, 'a, 'v) Sim" where
  "counted f self args = (Inr (f self args), self\<lparr>s_calls := s_calls self + 1\<rparr>)"

definition memoized ::
  "'i \<Rightarrow> (('f, 'i, 'a, 'v) Sim \<Rightarrow> 'a \<Rightarrow> 'v) \<Rightarrow> ('f, 'i, 'a, 'v) Sim \<Rightarrow> 'a \<Rightarrow> (error + 'v) \<times> ('f, 'i, 'a, 'v) Sim" where
  "memoized func_id f = cached_method get_cache put_cache func_id (counted f)"

text \<open>An assignment to the grid of the object.\<close>

definition assign_grid ::
  "'f float_ops \<Rightarrow> 'f assignment \<Rightarrow> ('f, 'i, 'a, 'v) Sim \<Rightarrow> error option \<times> ('f, 'i, 'a, 'v) Sim" where
  "assign_grid A asg self =
     (case assign A asg (s_grid self, s_store self) of
        (r, (g, h)) \<Rightarrow> (r, self\<lparr>s_grid := g, s_store := h\<rparr>))"

section \<open>Example objects\<close>

text \<open>
  \<^verbatim>\<open>Grid(extent=10, gpts=(5, 5))\<close> with the given lock flags, as the constructor
  leaves it. Its callbacks run on no state.
\<close>

definition grid_10_5 :: "bool \<Rightarrow> bool \<Rightarrow> bool \<Rightarrow> (rat, unit) Grid" where
  "grid_10_5 lock_extent lock_gpts lock_sampling =
     \<lparr>changed = Event_init, u_dimensions = 2, u_endpoint = False,
      u_lock_extent = lock_extent, u_lock_gpts = lock_gpts, u_lock_sampling = lock_sampling,
      u_extent = Some [10, 10], u_gpts = Some [5, 5], u_sampling = Some [2, 2]\<rparr>"

text \<open>\<^verbatim>\<open>Grid(extent=1, sampling=0.5, lock_sampling=True)\<close>, as the constructor leaves it.\<close>

definition grid_locked_sampling :: "(rat, unit) Grid" where
  "grid_locked_sampling =
     \<lparr>changed = Event_init, u_dimensions = 2, u_endpoint = False,
      u_lock_extent = False, u_lock_gpts = False, u_lock_sampling = True,
      u_extent = Some [1, 1], u_gpts = Some [2, 2], u_sampling = Some [1 / 2, 1 / 2]\<rparr>"

text \<open>
  \<^verbatim>\<open>Grid(extent=10)\<close>, \<^verbatim>\<open>Grid()\<close>, \<^verbatim>\<open>Grid(sampling=0.5)\<close> and
  \<^verbatim>\<open>Grid(extent=20, gpts=(8, 8))\<close>, as the constructor leaves them.
\<close>

definition grid_extent_only :: "(rat, unit) Grid" where
  "grid_extent_only =
     \<lparr>changed = Event_init, u_dimensions = 2, u_endpoint = False,
      u_lock_extent = False, u_lock_gpts = False, u_lock_sampling = False,
      u_extent = Some [10, 10], u_gpts = None, u_sampling = None\<rparr>"

definition grid_undefined :: "(rat, unit) Grid" where
  "grid_undefined =
     \<lparr>changed = Event_init, u_dimensions = 2, u_endpoint = False,
      u_lock_extent = False, u_lock_gpts = False, u_lock_sampling = False,
      u_extent = None, u_gpts = None, u_sampling = None\<rparr>"

definition grid_sampling_only :: "(rat, unit) Grid" where
  "grid_sampling_only =
     \<lparr>changed = Event_init, u_dimensions = 2, u_endpoint = False,
      u_lock_extent = False, u_lock_gpts = False, u_lock_sampling = False,
      u_extent = None, u_gpts = None, u_sampling = Some [1 / 2, 1 / 2]\<rparr>"

definition grid_20_8 :: "(rat, unit) Grid" where
  "grid_20_8 =
     \<lparr>changed = Event_init, u_dimensions = 2, u_endpoint = False,
      u_lock_extent = False, u_lock_gpts = False, u_lock_sampling = False,
      u_extent = Some [20, 20], u_gpts = Some [8, 8], u_sampling = Some [5 / 2, 5 / 2]\<rparr>"

text \<open>
  A simulation object that owns \<^verbatim>\<open>Grid(extent=10, gpts=(5, 5))\<close> and a new
  \<^verbatim>\<open>Cache(max_size=4)\<close>, with the cache-clearing callback registered on the grid's
  event; a computation on it that reads the grid; and the states after calling the
  memoized computation twice with the argument 3, then assigning 8 to the gpts of the
  grid, then calling it a third time.
\<close>

definition example_sim :: "(rat, nat, int, int) Sim" where
  "example_sim =
     \<lparr>s_grid = \<lparr>changed = register [cache_clear_callback 0] Event_init,
                 u_dimensions = 2, u_endpoint = False,
                 u_lock_extent = False, u_lock_gpts = False, u_lock_sampling = False,
                 u_extent = Some [10, 10], u_gpts = Some [5, 5], u_sampling = Some [2, 2]\<rparr>,
      s_store = (\<lambda>r. Cache_init (Some 4)), s_cache = 0, s_calls = 0\<rparr>"

definition gpts_times :: "(rat, nat, int, int) Sim \<Rightarrow> int \<Rightarrow> int" where
  "gpts_times self k = (case u_gpts (s_grid self) of Some (n # ns) \<Rightarrow> n * k | _ \<Rightarrow> 0)"

definition after_first :: "(rat, nat, int, int) Sim" where
  "after_first = snd (memoized 0 gpts_times example_sim 3)"

definition after_second :: "(rat, nat, int, int) Sim" where
  "after_second = snd (memoized 0 gpts_times after_first 3)"

definition after_mutation :: "(rat, nat, int, int) Sim" where
  "after_mutation = snd (assign_grid exact_ops (Set_gpts (Scalar 8)) after_second)"

definition after_third :: "(rat, nat, int, int) Sim" where
  "after_third = snd (memoized 0 gpts_times after_mutation 3)"

section \<open>Properties of the cache\<close>

text \<open>
  With a bound \<open>m \<ge> 0\<close> the eviction loop never raises: it drops the oldest entries
  until \<open>m\<close> are left.
\<close>


lemma check_size_loop_ok:
  "0 \<le> m \<Longrightarrow> check_size_loop m c =
     (None, c\<lparr>u_cached := drop (length (u_cached c) - nat m) (u_cached c)\<rparr>)"
proof (induction m c rule: check_size_loop.induct)
  case (1 m c)
  show ?case
  proof (cases "len c > m")
    case False
    then show ?thesis by (subst check_size_loop.simps) (simp add: len_def)
  next
    case True
    with 1(2) obtain x rest where xs: "u_cached c = x # rest"
      by (cases "u_cached c") (auto simp: len_def)
    have "length rest \<ge> nat m" using True xs 1(2) by (simp add: len_def)
    then have "Suc (length rest) - nat m = Suc (length rest - nat m)" by simp
    with 1(1)[OF True xs 1(2)] True xs show ?thesis
      by (subst check_size_loop.simps) simp
  qed
qed

lemma insert_c_ok:
  "u_max_size c = Some m \<Longrightarrow> 0 \<le> m \<Longrightarrow> insert_c k v c =
     (None, c\<lparr>u_cached := drop (length (setitem (u_cached c) k v) - nat m) (setitem (u_cached c) k v)\<rparr>)"
  by (simp add: insert_c_def check_size_def check_size_loop_ok)

lemma setitem_new: "k \<notin> set (map fst xs) \<Longrightarrow> setitem xs k v = xs @ [(k, v)]"
  by (induction xs) auto

lemma setitem_present: "k \<in> set (map fst xs) \<Longrightarrow> map fst (setitem xs k v) = map fst xs"
  by (induction xs) force+

lemma inserts_append:
  "inserts (xs @ ys) c = (case inserts xs c of (None, c') \<Rightarrow> inserts ys c' | (Some e, c') \<Rightarrow> (Some e, c'))"
  by (induction xs arbitrary: c) (auto split: prod.splits option.splits)

text \<open>Distinct new keys, while there is room, are appended in order.\<close>

lemma inserts_fill:
  assumes "u_max_size c = Some m" "0 \<le> m"
    and "distinct (map fst (u_cached c @ xs))" "int (length (u_cached c @ xs)) \<le> m"
  shows "inserts xs c = (None, c\<lparr>u_cached := u_cached c @ xs\<rparr>)"
  using assms
proof (induction xs arbitrary: c)
  case Nil
  then show ?case by simp
next
  case (Cons x xs)
  obtain k v where x: "x = (k, v)" by (cases x)
  have new: "k \<notin> set (map fst (u_cached c))" using Cons.prems(3) x by auto
  have len: "length (u_cached c) + 1 - nat m = 0" using Cons.prems(4,2) by simp
  have step: "insert_c k v c = (None, c\<lparr>u_cached := u_cached c @ [(k, v)]\<rparr>)"
    using Cons.prems(1,2) new len by (simp add: insert_c_ok setitem_new)
  have "inserts xs (c\<lparr>u_cached := u_cached c @ [(k, v)]\<rparr>)
        = (None, c\<lparr>u_cached := u_cached c @ [(k, v)]\<rparr>\<lparr>u_cached := u_cached (c\<lparr>u_cached := u_cached c @ [(k, v)]\<rparr>) @ xs\<rparr>)"
    by (rule Cons.IH) (use Cons.prems x in auto)
  with step x show ?case by simp
qed

text \<open>Inserting keys that are present keeps the keys and their order.\<close>

lemma inserts_present:
  assumes "u_max_size c = Some m" "0 \<le> m" "int (length (u_cached c)) \<le> m"
    and "set (map fst ys) \<subseteq> set (map fst (u_cached c))"
  shows "\<exists>c'. inserts ys c = (None, c') \<and> map fst (u_cached c') = map fst (u_cached c)
      \<and> u_max_size c' = u_max_size c \<and> u_hits c' = u_hits c \<and> u_misses c' = u_misses c"
  using assms
proof (induction ys arbitrary: c)
  case Nil
  then show ?case by simp
next
  case (Cons y ys)
  obtain k v where y: "y = (k, v)" by (cases y)
  have pres: "k \<in> set (map fst (u_cached c))" using Cons.prems(4) y by auto
  have l: "length (setitem (u_cached c) k v) = length (u_cached c)"
    using setitem_present[OF pres, of v] by (metis length_map)
  let ?c1 = "c\<lparr>u_cached := setitem (u_cached c) k v\<rparr>"
  have step: "insert_c k v c = (None, ?c1)"
    using Cons.prems(1,2,3) l by (simp add: insert_c_ok)
  have "\<exists>c'. inserts ys ?c1 = (None, c') \<and> map fst (u_cached c') = map fst (u_cached ?c1)
      \<and> u_max_size c' = u_max_size ?c1 \<and> u_hits c' = u_hits ?c1 \<and> u_misses c' = u_misses ?c1"
    by (rule Cons.IH) (use Cons.prems y l setitem_present[OF pres, of v] in auto)
  with step y setitem_present[OF pres, of v] show ?case by auto
qed


lemma insert_c_full:
  assumes "u_max_size c = Some k" "0 \<le> k" "int (length (u_cached c)) = k"
    and "fst z \<notin> set (map fst (u_cached c))"
  shows "insert_c (fst z) (snd z) c = (None, c\<lparr>u_cached := tl (u_cached c @ [z])\<rparr>)"
proof -
  have "length (u_cached c @ [z]) - nat k = 1" using assms(2,3) by simp
  moreover have "drop 1 (u_cached c @ [z]) = tl (u_cached c @ [z])"
    by (simp only: One_nat_def drop_Suc drop_0)
  moreover have "setitem (u_cached c) (fst z) (snd z) = u_cached c @ [z]"
    using assms(4) by (simp add: setitem_new)
  ultimately show ?thesis
    using assms(1,2) by (simp only: insert_c_ok)
qed

lemma inserts_distinct:
  assumes "0 \<le> k" "distinct (map fst kvs)" "int (length kvs) = k + 1"
  shows "inserts kvs (Cache_init (Some k)) = (None, (Cache_init (Some k))\<lparr>u_cached := tl kvs\<rparr>)"
proof -
  from assms(3,1) have ne: "kvs \<noteq> []" by auto
  define xs z where "xs = butlast kvs" and "z = last kvs"
  have kvs: "kvs = xs @ [z]" using ne by (simp add: xs_def z_def)
  let ?c0 = "Cache_init (Some k) :: ('a, 'b) Cache"
  have fill: "inserts xs ?c0 = (None, ?c0\<lparr>u_cached := xs\<rparr>)"
    using inserts_fill[of ?c0 k xs] assms kvs by (simp add: Cache_init_def)
  have "insert_c (fst z) (snd z) (?c0\<lparr>u_cached := xs\<rparr>)
        = (None, ?c0\<lparr>u_cached := xs\<rparr>\<lparr>u_cached := tl (u_cached (?c0\<lparr>u_cached := xs\<rparr>) @ [z])\<rparr>)"
    by (rule insert_c_full[where k = k]) (use assms kvs in \<open>auto simp: Cache_init_def\<close>)
  then have last: "inserts [z] (?c0\<lparr>u_cached := xs\<rparr>) = (None, ?c0\<lparr>u_cached := tl kvs\<rparr>)"
    using kvs by (cases z) simp
  show ?thesis
    unfolding kvs inserts_append fill using last kvs by simp
qed

lemma inserts_reinsert:
  assumes "0 \<le> k" "distinct (map fst xs)" "int (length xs) = k"
    and "set (map fst ys) \<subseteq> set (map fst xs)" "fst z \<notin> set (map fst xs)"
  shows "\<exists>c'. inserts (xs @ ys @ [z]) (Cache_init (Some k)) = (None, c')
           \<and> map fst (u_cached c') = tl (map fst xs @ [fst z]) \<and> int (length (u_cached c')) = k"
proof -
  let ?c0 = "Cache_init (Some k) :: ('a, 'b) Cache"
  have fill: "inserts xs ?c0 = (None, ?c0\<lparr>u_cached := xs\<rparr>)"
    using inserts_fill[of ?c0 k xs] assms by (simp add: Cache_init_def)
  obtain c1 where c1: "inserts ys (?c0\<lparr>u_cached := xs\<rparr>) = (None, c1)"
    "map fst (u_cached c1) = map fst xs" "u_max_size c1 = Some k"
    using inserts_present[of "?c0\<lparr>u_cached := xs\<rparr>" k ys] assms
    by (auto simp: Cache_init_def)
  have l1: "length (u_cached c1) = length xs" using c1(2) by (metis length_map)
  have "insert_c (fst z) (snd z) c1 = (None, c1\<lparr>u_cached := tl (u_cached c1 @ [z])\<rparr>)"
    by (rule insert_c_full[where k = k]) (use assms c1 l1 in auto)
  then have last: "inserts [z] c1 = (None, c1\<lparr>u_cached := tl (u_cached c1 @ [z])\<rparr>)"
    by (cases z) simp
  have keys: "map fst (tl (u_cached c1 @ [z])) = tl (map fst xs @ [fst z])"
    using c1(2) by (simp add: map_tl)
  have "int (length (tl (u_cached c1 @ [z]))) = k" using l1 assms(3) by simp
  with keys show ?thesis
    unfolding inserts_append fill using c1(1) last by simp
qed


text \<open>
  Claim C4. For a cache with \<^verbatim>\<open>max_size = k\<close> (a size, so \<open>0 \<le> k\<close>): inserting
  \<open>k + 1\<close> distinct keys into the fresh cache raises nothing and leaves exactly the
  last \<open>k\<close> entries, so the entry inserted first is the evicted one. Eviction is by
  insertion order, not by use: after \<open>k\<close> distinct keys \<open>xs\<close>, inserting again any keys
  \<open>ys\<close> that are present, and then a new key \<open>z\<close>, evicts the first key of \<open>xs\<close> all the
  same. After every insert, into any state of the cache, \<^verbatim>\<open>len(cache) <= max_size\<close>.
\<close>

theorem cache_fifo_eviction:
  fixes k :: int and kvs xs ys :: "('k \<times> 'v) list" and c :: "('k, 'v) Cache"
  assumes "0 \<le> k"
  shows "(distinct (map fst kvs) \<and> int (length kvs) = k + 1 \<longrightarrow>
            (\<exists>c'. inserts kvs (Cache_init (Some k)) = (None, c')
                \<and> cached c' = tl kvs \<and> len c' = k))
       \<and> (distinct (map fst xs) \<and> int (length xs) = k
            \<and> set (map fst ys) \<subseteq> set (map fst xs) \<and> fst z \<notin> set (map fst xs) \<longrightarrow>
            (\<exists>c'. inserts (xs @ ys @ [z]) (Cache_init (Some k)) = (None, c')
                \<and> map fst (cached c') = tl (map fst xs @ [fst z]) \<and> len c' = k))
       \<and> (u_max_size c = Some k \<longrightarrow>
            (\<exists>c'. insert_c key val c = (None, c') \<and> len c' \<le> k))"
proof (intro conjI impI)
  assume h: "distinct (map fst kvs) \<and> int (length kvs) = k + 1"
  then have "int (length (tl kvs)) = k" using assms by (cases kvs) auto
  with h show "\<exists>c'. inserts kvs (Cache_init (Some k)) = (None, c') \<and> cached c' = tl kvs \<and> len c' = k"
    using inserts_distinct[OF assms, of kvs] by (simp add: cached_def len_def)
next
  assume "distinct (map fst xs) \<and> int (length xs) = k
            \<and> set (map fst ys) \<subseteq> set (map fst xs) \<and> fst z \<notin> set (map fst xs)"
  then show "\<exists>c'. inserts (xs @ ys @ [z]) (Cache_init (Some k)) = (None, c')
                \<and> map fst (cached c') = tl (map fst xs @ [fst z]) \<and> len c' = k"
    using inserts_reinsert[OF assms, of xs ys z] by (simp add: cached_def len_def)
next
  assume "u_max_size c = Some k"
  then show "\<exists>c'. insert_c key val c = (None, c') \<and> len c' \<le> k"
    using assms by (simp add: insert_c_ok len_def)
qed

theorem cache_fifo_eviction_witness:
  "(0::int) \<le> 2
   \<and> distinct (map fst [(1::nat, ''a''), (2, ''b''), (3, ''c'')])
   \<and> int (length [(1::nat, ''a''), (2, ''b''), (3, ''c'')]) = 2 + 1
   \<and> (\<exists>c'. inserts [(1::nat, ''a''), (2, ''b''), (3, ''c'')] (Cache_init (Some 2)) = (None, c')
          \<and> cached c' = [(2, ''b''), (3, ''c'')] \<and> len c' = 2)
   \<and> distinct (map fst [(1::nat, ''a''), (2, ''b'')])
   \<and> set (map fst [(1::nat, ''A'')]) \<subseteq> set (map fst [(1::nat, ''a''), (2, ''b'')])
   \<and> fst (3::nat, ''c'') \<notin> set (map fst [(1::nat, ''a''), (2, ''b'')])
   \<and> (\<exists>c'. inserts ([(1::nat, ''a''), (2, ''b'')] @ [(1, ''A'')] @ [(3, ''c'')]) (Cache_init (Some 2)) = (None, c')
          \<and> map fst (cached c') = [2, 3] \<and> len c' = 2)
   \<and> u_max_size (Cache_init (Some 2) :: (nat, string) Cache) = Some 2
   \<and> (\<exists>c'. insert_c (1::nat) ''a'' (Cache_init (Some 2)) = (None, c') \<and> len c' \<le> 2)"
  using cache_fifo_eviction [of 2 "[(1::nat, ''a''), (2, ''b''), (3, ''c'')]"
      "[(1::nat, ''a''), (2, ''b'')]" "[(1, ''A'')]" "(3, ''c'')" "Cache_init (Some 2)" 1 "''a''"]
  by (simp add: Cache_init_def)


section \<open>Properties of the cache-clearing callback\<close>

text \<open>
  Claim C7. The callback made by \<^verbatim>\<open>cache_clear_callback(target_cache)\<close> never raises;
  it clears the target cache when the notified \<^verbatim>\<open>change\<close> flag is true and leaves the
  store of caches as it is when the flag is false; other caches are never touched.
  The same holds when \<^verbatim>\<open>Event.notify\<close> invokes the callback registered on a new event.
\<close>

theorem cache_clear_callback_iff:
  fixes h :: "('k, 'v) store"
  shows "\<exists>h'. cache_clear_callback t n h = (None, h')
       \<and> notify n (register [cache_clear_callback t] Event_init, h)
           = (None, (\<lparr>callbacks = [cache_clear_callback t], u_notify_count = 1\<rparr>, h'))
       \<and> (change n \<longrightarrow> h' t = clear (h t) \<and> cached (h' t) = [])
       \<and> (\<not> change n \<longrightarrow> h' = h)
       \<and> (\<forall>r. r \<noteq> t \<longrightarrow> h' r = h r)"
  by (simp add: cache_clear_callback_def notify_def register_def Event_init_def clear_def cached_def)

theorem cache_clear_callback_iff_witness:
  "(\<exists>h'. cache_clear_callback 0 \<lparr>property_name = ''extent'', change = True\<rparr>
        ((\<lambda>r. Cache_init (Some 2))
           (0 := \<lparr>u_max_size = Some 2, u_cached = [((1::nat), ''a'')], u_hits = 3, u_misses = 1\<rparr>))
        = (None, h')
      \<and> change \<lparr>property_name = ''extent'', change = True\<rparr>
      \<and> cached (h' 0) = [] \<and> (1::nat) \<noteq> 0 \<and> h' 1 = (Cache_init (Some 2) :: (nat, string) Cache))
   \<and> (\<exists>h'. cache_clear_callback 0 \<lparr>property_name = ''extent'', change = False\<rparr>
        ((\<lambda>r. Cache_init (Some 2))
           (0 := \<lparr>u_max_size = Some 2, u_cached = [((1::nat), ''a'')], u_hits = 3, u_misses = 1\<rparr>))
        = (None, h')
      \<and> \<not> change \<lparr>property_name = ''extent'', change = False\<rparr>
      \<and> cached (h' 0) = [((1::nat), ''a'')])"
proof -
  let ?h = "(\<lambda>r. Cache_init (Some 2))
           (0 := \<lparr>u_max_size = Some 2, u_cached = [((1::nat), ''a'')], u_hits = 3, u_misses = 1\<rparr>)
           :: (nat, string) store"
  let ?T = "\<lparr>property_name = ''extent'', change = True\<rparr>"
  let ?F = "\<lparr>property_name = ''extent'', change = False\<rparr>"
  obtain h1 where h1: "cache_clear_callback 0 ?T ?h = (None, h1)"
      "change ?T \<longrightarrow> h1 0 = clear (?h 0) \<and> cached (h1 0) = []"
      "\<forall>r. r \<noteq> 0 \<longrightarrow> h1 r = ?h r"
    using cache_clear_callback_iff [of 0 ?T ?h] by blast
  obtain h2 where h2: "cache_clear_callback 0 ?F ?h = (None, h2)"
      "\<not> change ?F \<longrightarrow> h2 = ?h"
    using cache_clear_callback_iff [of 0 ?F ?h] by blast
  have "change ?T" by simp
  with h1(2) have a: "cached (h1 0) = []" by blast
  have "h1 1 = ?h 1" using h1(3) by (simp del: fun_upd_apply)
  then have b: "h1 1 = Cache_init (Some 2)" by simp
  have "h2 = ?h" using h2(2) by simp
  then have c: "cached (h2 0) = [((1::nat), ''a'')]" by (simp add: cached_def)
  show ?thesis using h1(1) h2(1) a b c by simp
qed

section \<open>The example objects are constructible\<close>

lemma grid_10_5_constructed:
  "\<not> (le \<and> lg) \<Longrightarrow> \<not> (le \<and> ls) \<Longrightarrow> \<not> (lg \<and> ls) \<Longrightarrow>
   Grid_init exact_ops (Scalar 10) (Seq [5, 5]) NoneArg 2 False le lg ls = Inr (grid_10_5 le lg ls)"
  by (auto simp add: Grid_init_def validate_def adjust_extent_def adjust_gpts_def adjust_sampling_def
      exact_ops_def grid_10_5_def numeral_2_eq_2)

lemma grid_locked_sampling_constructed:
  "Grid_init exact_ops (Scalar 1) NoneArg (Scalar (1 / 2)) 2 False False False True
     = Inr grid_locked_sampling"
  by (simp add: Grid_init_def validate_def adjust_extent_def adjust_gpts_def adjust_sampling_def
      exact_ops_def grid_locked_sampling_def numeral_2_eq_2)

lemmas grid_eval = set_extent_def set_gpts_def set_sampling_def watched_method_def
  extent_func_def gpts_func_def sampling_func_def validate_def seq_def
  adjust_extent_def adjust_gpts_def adjust_sampling_def exact_ops_def
  notify_def put_changed_def Event_init_def notify_count_def

section \<open>Properties of the grid setters\<close>

text \<open>The setters notify the event and change nothing else of it.\<close>

lemma notify_count_changed:
  "notify n (ev, w) = (r, (ev', w')) \<Longrightarrow>
     u_notify_count ev' = u_notify_count ev + 1 \<and> callbacks ev' = callbacks ev"
  by (auto simp: notify_def Let_def split: prod.splits)

lemma adjust_extent_changed [simp]: "changed (adjust_extent A gp sm g) = changed g"
  by (simp add: adjust_extent_def split: option.splits)

lemma adjust_gpts_changed [simp]: "changed (snd (adjust_gpts A e sm g)) = changed g"
  by (simp add: adjust_gpts_def split: option.splits sum.splits)

lemma adjust_sampling_changed [simp]: "changed (snd (adjust_sampling A e gp g)) = changed g"
  by (simp add: adjust_sampling_def split: option.splits sum.splits)

lemma seq_changed:
  assumes "\<And>s. changed (snd (p s)) = changed s" "\<And>s. changed (snd (q s)) = changed s"
  shows "changed (snd (seq p q s)) = changed s"
  using assms(1)[of s] assms(2)[of "snd (p s)"] by (auto simp: seq_def split: prod.splits option.splits)

lemma extent_func_changed: "changed (snd (extent_func A v g)) = changed g"
  by (simp add: extent_func_def seq_changed split: sum.splits)

lemma gpts_func_changed: "changed (snd (gpts_func A v g)) = changed g"
  by (simp add: gpts_func_def seq_changed split: sum.splits)

lemma sampling_func_changed: "changed (snd (sampling_func A v g)) = changed g"
  by (simp add: sampling_func_def seq_changed split: sum.splits)

lemma assign_func_changed: "changed (snd (assign_func A asg g)) = changed g"
  by (cases asg) (simp_all add: extent_func_changed gpts_func_changed sampling_func_changed)

lemma assign_watched:
  "assign A asg = watched_method changed put_changed
      (case asg of Set_extent v \<Rightarrow> ''extent'' | Set_gpts v \<Rightarrow> ''gpts'' | Set_sampling v \<Rightarrow> ''sampling'')
      (assign_func A asg)"
  by (cases asg) (simp_all add: set_extent_def set_gpts_def set_sampling_def)

text \<open>
  Claim C6. For each of the three lock flags: an assignment to the locked property
  raises the \<^verbatim>\<open>RuntimeError\<close> of that property; the grid, which holds the stored
  extent, gpts and sampling and the \<^verbatim>\<open>changed\<close> event with its counter, and the state
  of the callbacks are as before the assignment.
\<close>

theorem locked_write_fails:
  "(u_lock_extent g \<longrightarrow>
      set_extent A v (g, w) = (Some (RuntimeError ''Extent cannot be modified''), (g, w)))
   \<and> (u_lock_gpts g \<longrightarrow>
      set_gpts A n (g, w) = (Some (RuntimeError ''Grid gpts cannot be modified''), (g, w)))
   \<and> (u_lock_sampling g \<longrightarrow>
      set_sampling A v (g, w) = (Some (RuntimeError ''Sampling cannot be modified''), (g, w)))"
  by (simp add: set_extent_def set_gpts_def set_sampling_def watched_method_def
      extent_func_def gpts_func_def sampling_func_def)

theorem locked_write_fails_witness:
  "u_lock_extent (grid_10_5 True False False)
   \<and> set_extent exact_ops (Scalar 3) (grid_10_5 True False False, ())
       = (Some (RuntimeError ''Extent cannot be modified''), (grid_10_5 True False False, ()))
   \<and> u_lock_gpts (grid_10_5 False True False)
   \<and> set_gpts exact_ops (Scalar 3) (grid_10_5 False True False, ())
       = (Some (RuntimeError ''Grid gpts cannot be modified''), (grid_10_5 False True False, ()))
   \<and> u_lock_sampling (grid_10_5 False False True)
   \<and> set_sampling exact_ops (Scalar 3) (grid_10_5 False False True, ())
       = (Some (RuntimeError ''Sampling cannot be modified''), (grid_10_5 False False True, ()))"
  using locked_write_fails [of "grid_10_5 True False False" exact_ops "Scalar 3" "()" "Scalar 3"]
    locked_write_fails [of "grid_10_5 False True False" exact_ops "Scalar 3" "()" "Scalar 3"]
    locked_write_fails [of "grid_10_5 False False True" exact_ops "Scalar 3" "()" "Scalar 3"]
  by (simp add: grid_10_5_def)

text \<open>
  Claim C1, as the code has it. The setters are decorated with \<^verbatim>\<open>watched_method\<close>,
  which notifies after every run of the setter that returns, and \<^verbatim>\<open>Event.notify\<close>
  counts every notification. So an assignment to the extent, the gpts or the sampling
  whose setter returns increments the counter exactly once, whether the assigned
  value differs from the current one or not; an assignment whose setter raises
  (a locked property, a validation error, a division by zero) leaves the counter.
\<close>

theorem assignment_notifies_once:
  assumes "assign A asg (g, w) = (r, (g', w'))"
  shows "notify_count (changed g') =
           (if fst (assign_func A asg g) = None then notify_count (changed g) + 1
            else notify_count (changed g))"
proof (cases "assign_func A asg g")
  case (Pair e g1)
  have ch: "changed g1 = changed g" using assign_func_changed[of A asg g] Pair by simp
  show ?thesis
  proof (cases e)
    case None
    obtain r2 ev w2 where n: "notify \<lparr>property_name =
        (case asg of Set_extent v \<Rightarrow> ''extent'' | Set_gpts v \<Rightarrow> ''gpts'' | Set_sampling v \<Rightarrow> ''sampling''),
        change = True\<rparr> (changed g1, w) = (r2, (ev, w2))"
      by (metis prod.exhaust)
    from assms Pair None n have "g' = put_changed ev g1"
      by (simp add: assign_watched watched_method_def)
    with notify_count_changed[OF n] ch Pair None show ?thesis
      by (simp add: notify_count_def put_changed_def)
  next
    case (Some err)
    with assms Pair have "g' = g1" by (simp add: assign_watched watched_method_def)
    with ch Pair Some show ?thesis by (simp add: notify_count_def)
  qed
qed

theorem assignment_notifies_once_witness:
  "assign exact_ops (Set_extent (Seq [10, 10])) (grid_10_5 False False False, ())
       = (None, ((grid_10_5 False False False)\<lparr>changed := \<lparr>callbacks = [], u_notify_count = 1\<rparr>\<rparr>, ()))
   \<and> fst (assign_func exact_ops (Set_extent (Seq [10, 10])) (grid_10_5 False False False)) = None
   \<and> notify_count (changed ((grid_10_5 False False False)\<lparr>changed := \<lparr>callbacks = [], u_notify_count = 1\<rparr>\<rparr>))
       = notify_count (changed (grid_10_5 False False False)) + 1
   \<and> assign exact_ops (Set_gpts (Scalar 8)) (grid_10_5 False False False, ())
       = (None, ((grid_10_5 False False False)\<lparr>changed := \<lparr>callbacks = [], u_notify_count = 1\<rparr>,
                   u_gpts := Some [8, 8], u_sampling := Some [5 / 4, 5 / 4]\<rparr>, ()))
   \<and> fst (assign_func exact_ops (Set_gpts (Scalar 8)) (grid_10_5 False False False)) = None
   \<and> notify_count (changed ((grid_10_5 False False False)\<lparr>changed := \<lparr>callbacks = [], u_notify_count = 1\<rparr>,
                   u_gpts := Some [8, 8], u_sampling := Some [5 / 4, 5 / 4]\<rparr>))
       = notify_count (changed (grid_10_5 False False False)) + 1
   \<and> assign exact_ops (Set_sampling (Scalar 3)) (grid_10_5 False False True, ())
       = (Some (RuntimeError ''Sampling cannot be modified''), (grid_10_5 False False True, ()))
   \<and> fst (assign_func exact_ops (Set_sampling (Scalar 3)) (grid_10_5 False False True)) \<noteq> None
   \<and> notify_count (changed (grid_10_5 False False True)) = 0"
proof -
  have a: "assign exact_ops (Set_extent (Seq [10, 10])) (grid_10_5 False False False, ())
       = (None, ((grid_10_5 False False False)\<lparr>changed := \<lparr>callbacks = [], u_notify_count = 1\<rparr>\<rparr>, ()))"
    by (simp add: grid_10_5_def grid_eval)
  have b: "fst (assign_func exact_ops (Set_extent (Seq [10, 10])) (grid_10_5 False False False)) = None"
    by (simp add: grid_10_5_def grid_eval)
  have c: "assign exact_ops (Set_gpts (Scalar 8)) (grid_10_5 False False False, ())
       = (None, ((grid_10_5 False False False)\<lparr>changed := \<lparr>callbacks = [], u_notify_count = 1\<rparr>,
                   u_gpts := Some [8, 8], u_sampling := Some [5 / 4, 5 / 4]\<rparr>, ()))"
    by (simp add: grid_10_5_def grid_eval numeral_2_eq_2)
  have d: "fst (assign_func exact_ops (Set_gpts (Scalar 8)) (grid_10_5 False False False)) = None"
    by (simp add: grid_10_5_def grid_eval numeral_2_eq_2)
  have e: "assign exact_ops (Set_sampling (Scalar 3)) (grid_10_5 False False True, ())
       = (Some (RuntimeError ''Sampling cannot be modified''), (grid_10_5 False False True, ()))"
    by (simp add: grid_10_5_def grid_eval)
  have f: "fst (assign_func exact_ops (Set_sampling (Scalar 3)) (grid_10_5 False False True)) \<noteq> None"
    by (simp add: grid_10_5_def grid_eval)
  have z: "notify_count (changed (grid_10_5 False False True)) = 0"
    by (simp add: grid_10_5_def notify_count_def Event_init_def)
  from assignment_notifies_once [OF a] assignment_notifies_once [OF c]
    assignment_notifies_once [OF e] a b c d e f z
  show ?thesis by simp
qed

text \<open>
  Claim C1 as stated fails: assigning to the extent of \<^verbatim>\<open>Grid(extent=10, gpts=(5, 5))\<close>
  its current value \<^verbatim>\<open>(10.0, 10.0)\<close> changes no stored value and takes the counter from
  0 to 1.
\<close>

theorem noop_assignment_notifies:
  "u_extent (grid_10_5 False False False) = Some [10, 10]
   \<and> notify_count (changed (grid_10_5 False False False)) = 0
   \<and> set_extent exact_ops (Seq [10, 10]) (grid_10_5 False False False, ())
       = (None, ((grid_10_5 False False False)\<lparr>changed := \<lparr>callbacks = [], u_notify_count = 1\<rparr>\<rparr>, ()))"
  by (simp add: grid_10_5_def grid_eval)

section \<open>Properties of the constructor\<close>

lemma gen_tuple_ok:
  "(\<And>x. x \<in> set xs \<Longrightarrow> f x = Inr (h x)) \<Longrightarrow> gen_tuple f xs = Inr (map h xs)"
  by (induction xs) simp_all

lemma adjust_sampling_ok:
  assumes "\<forall>n\<in>set ns. (if u_endpoint g then n - 1 else n) \<noteq> 0"
  shows "adjust_sampling A (Some ls) (Some ns) g =
           (None, g\<lparr>u_sampling := Some (if u_endpoint g
              then map (\<lambda>(l, n). div_int A l (n - 1)) (zip ls ns)
              else map (\<lambda>(l, n). div_int A l n) (zip ls ns))\<rparr>)"
proof (cases "u_endpoint g")
  case True
  have "gen_tuple (\<lambda>(l, n). if n - 1 = 0 then Inl ZeroDivisionError else Inr (div_int A l (n - 1))) (zip ls ns)
        = Inr (map (\<lambda>(l, n). div_int A l (n - 1)) (zip ls ns))"
    by (rule gen_tuple_ok) (use assms True in \<open>auto dest: set_zip_rightD\<close>)
  with True show ?thesis by (simp add: adjust_sampling_def)
next
  case False
  have "gen_tuple (\<lambda>(l, n). if n = 0 then Inl ZeroDivisionError else Inr (div_int A l n)) (zip ls ns)
        = Inr (map (\<lambda>(l, n). div_int A l n) (zip ls ns))"
    by (rule gen_tuple_ok) (use assms False in \<open>auto dest: set_zip_rightD\<close>)
  with False show ?thesis by (simp add: adjust_sampling_def)
qed


text \<open>
  Claim C9, as the code has it. Let the constructor get no extent, gpts that validate
  to positive numbers \<open>ns\<close>, a sampling that validates to \<open>ds\<close>, and at most one lock
  flag. With \<^verbatim>\<open>endpoint=False\<close> it returns a grid whose extent is \<^verbatim>\<open>n * d\<close> element by
  element. With \<^verbatim>\<open>endpoint=True\<close> it returns a grid whose extent is \<^verbatim>\<open>(n - 1) * d\<close>
  element by element, provided that no element of the gpts is 1.
\<close>

theorem init_extent_from_gpts_and_sampling:
  fixes A :: "'f float_ops"
  assumes "validate dims gpts = Inr (Some ns)" and "validate dims sampling = Inr (Some ds)"
    and "\<not> (le \<and> lg)" and "\<not> (le \<and> ls)" and "\<not> (lg \<and> ls)"
    and "\<forall>n\<in>set ns. 0 < n"
  shows "(\<exists>g :: ('f, 'w) Grid. Grid_init A NoneArg gpts sampling dims False le lg ls = Inr g
            \<and> u_extent g = Some (map (\<lambda>(n, d). mul_int A n d) (zip ns ds)))
       \<and> ((\<forall>n\<in>set ns. n \<noteq> 1) \<longrightarrow>
          (\<exists>g :: ('f, 'w) Grid. Grid_init A NoneArg gpts sampling dims True le lg ls = Inr g
            \<and> u_extent g = Some (map (\<lambda>(n, d). mul_int A (n - 1) d) (zip ns ds))))"
proof (intro conjI impI)
  have locks: "\<not> (of_bool le + of_bool lg + of_bool ls :: nat) > 1"
    using assms(3-5) by (cases le; cases lg; cases ls) simp_all
  let ?g = "\<lambda>ep. \<lparr>changed = Event_init, u_dimensions = dims, u_endpoint = ep,
                    u_lock_extent = le, u_lock_gpts = lg, u_lock_sampling = ls,
                    u_extent = None, u_gpts = Some ns, u_sampling = Some ds\<rparr> :: ('f, 'w) Grid"
  have nz: "\<forall>n\<in>set ns. n \<noteq> 0" using assms(6) by auto
  show "\<exists>g :: ('f, 'w) Grid. Grid_init A NoneArg gpts sampling dims False le lg ls = Inr g
            \<and> u_extent g = Some (map (\<lambda>(n, d). mul_int A n d) (zip ns ds))"
    using locks assms(1,2) nz
    by (simp add: Grid_init_def validate_def adjust_extent_def adjust_sampling_ok)
  assume "\<forall>n\<in>set ns. n \<noteq> 1"
  then show "\<exists>g :: ('f, 'w) Grid. Grid_init A NoneArg gpts sampling dims True le lg ls = Inr g
            \<and> u_extent g = Some (map (\<lambda>(n, d). mul_int A (n - 1) d) (zip ns ds))"
    using locks assms(1,2)
    by (simp add: Grid_init_def validate_def adjust_extent_def adjust_sampling_ok)
qed

theorem init_extent_from_gpts_and_sampling_witness:
  "validate 2 (Seq [4, 6 :: int]) = Inr (Some [4, 6])
   \<and> validate 2 (Scalar (1 / 2 :: rat)) = Inr (Some [1 / 2, 1 / 2])
   \<and> list_all (\<lambda>n. 0 < n \<and> n \<noteq> 1) [4, 6 :: int]
   \<and> (\<exists>g :: (rat, unit) Grid.
         Grid_init exact_ops NoneArg (Seq [4, 6]) (Scalar (1 / 2)) 2 False False False False = Inr g
         \<and> u_extent g = Some [2, 3])
   \<and> (\<exists>g :: (rat, unit) Grid.
         Grid_init exact_ops NoneArg (Seq [4, 6]) (Scalar (1 / 2)) 2 True False False False = Inr g
         \<and> u_extent g = Some [3 / 2, 5 / 2])"
proof -
  have v: "validate 2 (Seq [4, 6 :: int]) = Inr (Some [4, 6])"
     "validate 2 (Scalar (1 / 2 :: rat)) = Inr (Some [1 / 2, 1 / 2])"
    by (simp_all add: validate_def numeral_2_eq_2)
  have p: "\<forall>n\<in>set [4, 6 :: int]. 0 < n" "\<forall>n\<in>set [4, 6 :: int]. n \<noteq> 1" by simp_all
  from init_extent_from_gpts_and_sampling [where A = exact_ops and 'w = unit, OF v _ _ _ p(1),
      of False False False] p(2) v
  show ?thesis by (simp add: exact_ops_def)
qed

text \<open>
  Claim C9 as stated fails: \<^verbatim>\<open>Grid(gpts=(1, 1), sampling=(0.5, 0.5), endpoint=True)\<close>
  raises \<^verbatim>\<open>ZeroDivisionError\<close>, from \<^verbatim>\<open>l / (n - 1)\<close> in \<^verbatim>\<open>_adjust_sampling\<close>.
\<close>

theorem init_endpoint_single_point_raises:
  "(Grid_init exact_ops NoneArg (Seq [1, 1]) (Seq [1 / 2, 1 / 2]) 2 True False False False
      :: error + (rat, unit) Grid) = Inl ZeroDivisionError"
  by (simp add: Grid_init_def validate_def adjust_extent_def adjust_gpts_def adjust_sampling_def
      exact_ops_def)

section \<open>Assigning an extent under a locked sampling\<close>






section \<open>Properties of the accelerator\<close>

lemma set_energy_locked:
  "u_lock_energy a \<Longrightarrow>
     set_energy v (a, w) = (Some (RuntimeError ''Energy cannot be modified''), (a, w))"
  by (simp add: set_energy_def watched_method_def energy_func_def)

lemma set_energy_unlocked:
  "\<not> u_lock_energy a \<Longrightarrow>
     \<exists>r a' w'. set_energy v (a, w) = (r, (a', w')) \<and> u_energy a' = v
        \<and> u_lock_energy a' = u_lock_energy a"
  by (cases "notify \<lparr>property_name = ''energy'', change = True\<rparr> (acc_changed a, w)")
    (auto simp: set_energy_def watched_method_def energy_func_def put_acc_changed_def)

lemma set_energy_cases:
  "\<exists>r a' w'. set_energy v (a, w) = (r, (a', w'))
      \<and> (u_energy a' = v \<or> u_energy a' = u_energy a)"
  using set_energy_locked[of a v w] set_energy_unlocked[of a v w]
  by (cases "u_lock_energy a") auto

text \<open>
  Claim C8, as the code has it. \<^verbatim>\<open>Accelerator.match\<close>: if both energies are undefined
  it raises \<^verbatim>\<open>'Energy cannot be inferred'\<close> and changes nothing. If only the energy of
  \<^verbatim>\<open>other\<close> is undefined and \<^verbatim>\<open>other\<close> is not locked, \<^verbatim>\<open>other\<close> adopts the energy of
  this accelerator. If the energy of \<^verbatim>\<open>other\<close> is defined and this accelerator is not
  locked (and \<^verbatim>\<open>check_match\<close> is not requested on two different defined energies),
  this accelerator adopts the energy of \<^verbatim>\<open>other\<close>. After a match that returned, a
  second match with the same arguments changes neither energy. In the two adopting
  cases, when the accelerator that is to adopt is locked instead, the match raises
  \<^verbatim>\<open>'Energy cannot be modified'\<close> and changes nothing.
\<close>

theorem acc_match_directionality:
  fixes a b :: "('f, 'w) Accelerator"
  shows "(u_energy a = None \<and> u_energy b = None \<longrightarrow>
            acc_match chk (a, b, w) = (Some (RuntimeError ''Energy cannot be inferred''), (a, b, w)))
       \<and> (u_energy a \<noteq> None \<and> u_energy b = None \<and> \<not> u_lock_energy b \<longrightarrow>
            (\<exists>r b' w'. acc_match chk (a, b, w) = (r, (a, b', w')) \<and> u_energy b' = u_energy a))
       \<and> (u_energy b \<noteq> None \<and> \<not> u_lock_energy a
            \<and> \<not> (chk \<and> u_energy a \<noteq> None \<and> u_energy a \<noteq> u_energy b) \<longrightarrow>
            (\<exists>r a' w'. acc_match chk (a, b, w) = (r, (a', b, w')) \<and> u_energy a' = u_energy b))
       \<and> (acc_match chk (a, b, w) = (None, (a1, b1, w1)) \<longrightarrow>
            (\<exists>r a2 b2 w2. acc_match chk (a1, b1, w1) = (r, (a2, b2, w2))
               \<and> u_energy a2 = u_energy a1 \<and> u_energy b2 = u_energy b1))
       \<and> (u_energy a \<noteq> None \<and> u_energy b = None \<and> u_lock_energy b \<longrightarrow>
            acc_match chk (a, b, w) = (Some (RuntimeError ''Energy cannot be modified''), (a, b, w)))
       \<and> (u_energy b \<noteq> None \<and> u_lock_energy a
            \<and> \<not> (chk \<and> u_energy a \<noteq> None \<and> u_energy a \<noteq> u_energy b) \<longrightarrow>
            acc_match chk (a, b, w) = (Some (RuntimeError ''Energy cannot be modified''), (a, b, w)))"
proof (intro conjI impI)
  assume "u_energy a = None \<and> u_energy b = None"
  then show "acc_match chk (a, b, w) = (Some (RuntimeError ''Energy cannot be inferred''), (a, b, w))"
    by (simp add: acc_match_def seq_def acc_check_match_def)
next
  assume h: "u_energy a \<noteq> None \<and> u_energy b = None \<and> \<not> u_lock_energy b"
  then obtain r b' w' where "set_energy (u_energy a) (b, w) = (r, (b', w'))" "u_energy b' = u_energy a"
    using set_energy_unlocked[of b "u_energy a" w] by blast
  with h show "\<exists>r b' w'. acc_match chk (a, b, w) = (r, (a, b', w')) \<and> u_energy b' = u_energy a"
    by (simp add: acc_match_def seq_def acc_check_match_def on_other_def)
next
  assume h: "u_energy b \<noteq> None \<and> \<not> u_lock_energy a
            \<and> \<not> (chk \<and> u_energy a \<noteq> None \<and> u_energy a \<noteq> u_energy b)"
  then obtain r a' w' where "set_energy (u_energy b) (a, w) = (r, (a', w'))" "u_energy a' = u_energy b"
    using set_energy_unlocked[of a "u_energy b" w] by blast
  with h show "\<exists>r a' w'. acc_match chk (a, b, w) = (r, (a', b, w')) \<and> u_energy a' = u_energy b"
    by (auto simp add: acc_match_def seq_def acc_check_match_def on_self_def)
next
  assume m: "acc_match chk (a, b, w) = (None, (a1, b1, w1))"
  have eq: "u_energy a1 = u_energy b1 \<and> u_energy b1 \<noteq> None"
  proof (cases "u_energy b = None")
    case True
    obtain r b' w' where s: "set_energy (u_energy a) (b, w) = (r, (b', w'))" by (metis prod.exhaust)
    show ?thesis
    proof (cases "u_lock_energy b")
      case True
      with m \<open>u_energy b = None\<close> set_energy_locked[of b "u_energy a" w] show ?thesis
        by (auto simp: acc_match_def seq_def acc_check_match_def on_other_def split: if_splits)
    next
      case False
      from set_energy_unlocked[OF False, of "u_energy a" w] s have "u_energy b' = u_energy a" by auto
      with m True s show ?thesis
        by (auto simp: acc_match_def seq_def acc_check_match_def on_other_def split: if_splits)
    qed
  next
    case False
    obtain r a' w' where s: "set_energy (u_energy b) (a, w) = (r, (a', w'))" by (metis prod.exhaust)
    show ?thesis
    proof (cases "u_lock_energy a")
      case True
      with m False set_energy_locked[of a "u_energy b" w] show ?thesis
        by (auto simp: acc_match_def seq_def acc_check_match_def on_self_def split: if_splits)
    next
      case F: False
      from set_energy_unlocked[OF F, of "u_energy b" w] s have "u_energy a' = u_energy b" by auto
      with m False s show ?thesis
        by (auto simp: acc_match_def seq_def acc_check_match_def on_self_def split: if_splits)
    qed
  qed
  obtain r a2 w2 where s2: "set_energy (u_energy b1) (a1, w1) = (r, (a2, w2))"
    "u_energy a2 = u_energy b1 \<or> u_energy a2 = u_energy a1"
    using set_energy_cases[of "u_energy b1" a1 w1] by blast
  with eq show "\<exists>r a2 b2 w2. acc_match chk (a1, b1, w1) = (r, (a2, b2, w2))
               \<and> u_energy a2 = u_energy a1 \<and> u_energy b2 = u_energy b1"
    by (auto simp: acc_match_def seq_def acc_check_match_def on_self_def)
next
  assume h: "u_energy a \<noteq> None \<and> u_energy b = None \<and> u_lock_energy b"
  then have "set_energy (u_energy a) (b, w)
      = (Some (RuntimeError ''Energy cannot be modified''), (b, w))"
    by (simp add: set_energy_locked)
  with h show "acc_match chk (a, b, w)
      = (Some (RuntimeError ''Energy cannot be modified''), (a, b, w))"
    by (simp add: acc_match_def seq_def acc_check_match_def on_other_def)
next
  assume h: "u_energy b \<noteq> None \<and> u_lock_energy a
            \<and> \<not> (chk \<and> u_energy a \<noteq> None \<and> u_energy a \<noteq> u_energy b)"
  then have "set_energy (u_energy b) (a, w)
      = (Some (RuntimeError ''Energy cannot be modified''), (a, w))"
    by (simp add: set_energy_locked)
  with h show "acc_match chk (a, b, w)
      = (Some (RuntimeError ''Energy cannot be modified''), (a, b, w))"
    by (auto simp add: acc_match_def seq_def acc_check_match_def on_self_def)
qed

theorem acc_match_directionality_witness:
  "acc_match False (Accelerator_init None False :: (rat, unit) Accelerator, Accelerator_init None False, ())
     = (Some (RuntimeError ''Energy cannot be inferred''),
        (Accelerator_init None False, Accelerator_init None False, ()))
   \<and> (\<exists>r b' w'. acc_match False (Accelerator_init (Some (100 :: rat)) False, Accelerator_init None False, ())
          = (r, (Accelerator_init (Some 100) False, b', w')) \<and> u_energy b' = Some 100)
   \<and> (\<exists>r a' w'. acc_match False (Accelerator_init (Some (100 :: rat)) False, Accelerator_init (Some 200) False, ())
          = (r, (a', Accelerator_init (Some 200) False, w')) \<and> u_energy a' = Some 200)
   \<and> acc_match False (Accelerator_init (Some (100 :: rat)) False, Accelerator_init (Some 200) False, ())
       = (None, (\<lparr>acc_changed = \<lparr>callbacks = [], u_notify_count = 1\<rparr>, u_energy = Some 200,
                   u_lock_energy = False\<rparr>, Accelerator_init (Some 200) False, ()))
   \<and> (\<exists>r a2 b2 w2.
         acc_match False (\<lparr>acc_changed = \<lparr>callbacks = [], u_notify_count = 1\<rparr>, u_energy = Some (200 :: rat),
                   u_lock_energy = False\<rparr>, Accelerator_init (Some 200) False, ()) = (r, (a2, b2, w2))
         \<and> u_energy a2 = Some 200 \<and> u_energy b2 = Some 200)
   \<and> u_lock_energy (Accelerator_init None True :: (rat, unit) Accelerator)
   \<and> acc_match True (Accelerator_init (Some (100 :: rat)) False, Accelerator_init None True, ())
       = (Some (RuntimeError ''Energy cannot be modified''),
          (Accelerator_init (Some 100) False, Accelerator_init None True, ()))
   \<and> u_lock_energy (Accelerator_init (Some 200) True :: (rat, unit) Accelerator)
   \<and> acc_match True (Accelerator_init (Some (200 :: rat)) True, Accelerator_init (Some 200) False, ())
       = (Some (RuntimeError ''Energy cannot be modified''),
          (Accelerator_init (Some 200) True, Accelerator_init (Some 200) False, ()))"
proof -
  let ?N = "Accelerator_init None False :: (rat, unit) Accelerator"
  let ?A = "Accelerator_init (Some 100) False :: (rat, unit) Accelerator"
  let ?B = "Accelerator_init (Some 200) False :: (rat, unit) Accelerator"
  let ?NL = "Accelerator_init None True :: (rat, unit) Accelerator"
  let ?BL = "Accelerator_init (Some 200) True :: (rat, unit) Accelerator"
  let ?A1 = "\<lparr>acc_changed = \<lparr>callbacks = [], u_notify_count = 1\<rparr>, u_energy = Some (200 :: rat),
                   u_lock_energy = False\<rparr> :: (rat, unit) Accelerator"
  have run: "acc_match False (?A, ?B, ()) = (None, (?A1, ?B, ()))"
    by (simp add: acc_match_def seq_def on_self_def set_energy_def watched_method_def
        energy_func_def Accelerator_init_def notify_def put_acc_changed_def Event_init_def)
  have c1: "acc_match False (?N, ?N, ())
     = (Some (RuntimeError ''Energy cannot be inferred''), (?N, ?N, ()))"
    using acc_match_directionality [of ?N ?N False "()" ?N ?N "()"]
    by (simp add: Accelerator_init_def)
  have c2: "\<exists>r b' w'. acc_match False (?A, ?N, ()) = (r, (?A, b', w')) \<and> u_energy b' = Some 100"
    using acc_match_directionality [of ?A ?N False "()" ?N ?N "()"]
    by (simp add: Accelerator_init_def)
  have c3: "\<exists>r a' w'. acc_match False (?A, ?B, ()) = (r, (a', ?B, w')) \<and> u_energy a' = Some 200"
    using acc_match_directionality [of ?A ?B False "()" ?A1 ?B "()"]
    by (simp add: Accelerator_init_def)
  have c4: "\<exists>r a2 b2 w2. acc_match False (?A1, ?B, ()) = (r, (a2, b2, w2))
         \<and> u_energy a2 = Some 200 \<and> u_energy b2 = Some 200"
    using acc_match_directionality [of ?A ?B False "()" ?A1 ?B "()"] run
    by (simp add: Accelerator_init_def)
  have l: "u_lock_energy ?NL" "u_lock_energy ?BL" by (simp_all add: Accelerator_init_def)
  have c5: "acc_match True (?A, ?NL, ())
       = (Some (RuntimeError ''Energy cannot be modified''), (?A, ?NL, ()))"
    using acc_match_directionality [of ?A ?NL True "()" ?N ?N "()"]
    by (simp add: Accelerator_init_def)
  have c6: "acc_match True (?BL, ?B, ())
       = (Some (RuntimeError ''Energy cannot be modified''), (?BL, ?B, ()))"
    using acc_match_directionality [of ?BL ?B True "()" ?N ?N "()"]
    by (simp add: Accelerator_init_def)
  from c1 c2 c3 run c4 l c5 c6 show ?thesis by (intro conjI)
qed

text \<open>
  Claim C8 as stated fails when the accelerator that is to adopt is locked: the
  setter raises \<^verbatim>\<open>'Energy cannot be modified'\<close> and nothing is adopted, both for
  \<^verbatim>\<open>Accelerator(100).match(Accelerator(None, lock_energy=True))\<close> and for
  \<^verbatim>\<open>Accelerator(100, lock_energy=True).match(Accelerator(200))\<close>.
\<close>

theorem acc_match_locked_adopter_raises:
  "acc_match False (Accelerator_init (Some (100 :: rat)) False, Accelerator_init None True, ())
     = (Some (RuntimeError ''Energy cannot be modified''),
        (Accelerator_init (Some 100) False, Accelerator_init None True, ()))
   \<and> acc_match False (Accelerator_init (Some (100 :: rat)) True, Accelerator_init (Some 200) False, ())
     = (Some (RuntimeError ''Energy cannot be modified''),
        (Accelerator_init (Some 100) True, Accelerator_init (Some 200) False, ()))"
  by (simp add: acc_match_def seq_def on_other_def on_self_def set_energy_def watched_method_def
      energy_func_def Accelerator_init_def)

section \<open>Properties of matching two grids\<close>

lemma example_grids_constructed:
  "Grid_init exact_ops (Scalar 10) NoneArg NoneArg 2 False False False False = Inr grid_extent_only"
  "Grid_init exact_ops NoneArg NoneArg NoneArg 2 False False False False = Inr grid_undefined"
  "Grid_init exact_ops NoneArg NoneArg (Scalar (1 / 2)) 2 False False False False = Inr grid_sampling_only"
  "Grid_init exact_ops (Scalar 20) (Scalar 8) NoneArg 2 False False False False = Inr grid_20_8"
  by (simp_all add: Grid_init_def validate_def adjust_extent_def adjust_gpts_def adjust_sampling_def
      exact_ops_def grid_extent_only_def grid_undefined_def grid_sampling_only_def grid_20_8_def
      numeral_2_eq_2)

text \<open>Callbacks that never raise.\<close>

lemma run_callbacks_quiet:
  "\<forall>cb\<in>set cbs. \<forall>n w. fst (cb n w) = None \<Longrightarrow> \<exists>w'. run_callbacks cbs n w = (None, w')"
proof (induction cbs arbitrary: w)
  case Nil
  then show ?case by simp
next
  case (Cons cb cbs)
  obtain w1 where "cb n w = (None, w1)" using Cons.prems by (metis list.set_intros(1) prod.collapse)
  with Cons show ?case by simp
qed

lemma notify_quiet:
  assumes "\<forall>cb\<in>set (callbacks ev). \<forall>n w. fst (cb n w) = None"
  shows "\<exists>w'. notify n (ev, w) = (None, (ev\<lparr>u_notify_count := u_notify_count ev + 1\<rparr>, w'))"
proof -
  obtain w' where "run_callbacks (callbacks ev) n w = (None, w')"
    using run_callbacks_quiet[OF assms] by blast
  then show ?thesis by (simp add: notify_def)
qed

text \<open>What a run of a setter body can result in.\<close>

lemma adjust_sampling_shape:
  "\<exists>s. snd (adjust_sampling A e gp g) = g\<lparr>u_sampling := s\<rparr>"
proof (cases "adjust_sampling A e gp g")
  case (Pair r g')
  then have "g' = g \<or> (\<exists>ds. g' = g\<lparr>u_sampling := Some ds\<rparr>)"
    by (auto simp: adjust_sampling_def split: option.splits sum.splits if_splits)
  moreover have "g = g\<lparr>u_sampling := u_sampling g\<rparr>" by simp
  ultimately show ?thesis using Pair by (metis snd_conv)
qed

lemma adjust_gpts_shape:
  "\<exists>n. snd (adjust_gpts A e sm g) = g\<lparr>u_gpts := n\<rparr>"
proof (cases "adjust_gpts A e sm g")
  case (Pair r g')
  then have "g' = g \<or> (\<exists>ns. g' = g\<lparr>u_gpts := Some ns\<rparr>)"
    by (auto simp: adjust_gpts_def split: option.splits sum.splits if_splits)
  moreover have "g = g\<lparr>u_gpts := u_gpts g\<rparr>" by simp
  ultimately show ?thesis using Pair by (metis snd_conv)
qed

lemma extent_func_returns:
  assumes "extent_func A (Seq e) g = (None, g1)"
  shows "u_extent g1 = Some e \<and> u_dimensions g1 = u_dimensions g \<and> u_endpoint g1 = u_endpoint g
       \<and> u_lock_extent g1 = u_lock_extent g \<and> u_lock_gpts g1 = u_lock_gpts g
       \<and> u_lock_sampling g1 = u_lock_sampling g
       \<and> (\<not> u_lock_sampling g \<and> u_gpts g \<noteq> None \<longrightarrow> u_gpts g1 = u_gpts g)"
proof -
  obtain n where n: "snd (adjust_gpts A (Some e) (u_sampling g) g) = g\<lparr>u_gpts := n\<rparr>"
    using adjust_gpts_shape by blast
  obtain s where s: "snd (adjust_sampling A (Some e) n (g\<lparr>u_gpts := n\<rparr>)) = g\<lparr>u_gpts := n, u_sampling := s\<rparr>"
    using adjust_sampling_shape[of A "Some e" n "g\<lparr>u_gpts := n\<rparr>"] by auto
  obtain s' where s': "snd (adjust_sampling A (Some e) (u_gpts g) g) = g\<lparr>u_sampling := s'\<rparr>"
    using adjust_sampling_shape by blast
  from assms n s s' show ?thesis
    by (auto simp: extent_func_def validate_def seq_def split: if_splits prod.splits option.splits)
qed






lemma gpts_func_returns:
  assumes "gpts_func A (Seq n) g = (None, g1)"
  shows "u_gpts g1 = Some n \<and> u_dimensions g1 = u_dimensions g \<and> u_endpoint g1 = u_endpoint g
       \<and> u_lock_extent g1 = u_lock_extent g \<and> u_lock_gpts g1 = u_lock_gpts g
       \<and> u_lock_sampling g1 = u_lock_sampling g
       \<and> (\<not> u_lock_sampling g \<and> u_extent g \<noteq> None \<longrightarrow> u_extent g1 = u_extent g)"
proof -
  obtain s where s: "snd (adjust_sampling A (u_extent g) (Some n) g) = g\<lparr>u_sampling := s\<rparr>"
    using adjust_sampling_shape by blast
  have e: "\<exists>x. adjust_extent A (Some n) (u_sampling g) g = g\<lparr>u_extent := x\<rparr>"
    by (cases "u_sampling g") (auto simp: adjust_extent_def intro: exI[of _ "u_extent g"])
  then obtain x where x: "adjust_extent A (Some n) (u_sampling g) g = g\<lparr>u_extent := x\<rparr>" by blast
  from assms s x show ?thesis
    by (auto simp: gpts_func_def validate_def seq_def split: if_splits prod.splits option.splits)
qed

text \<open>The decorated setters, when they return.\<close>

lemma set_extent_returns:
  assumes "set_extent A (Seq e) (g, w) = (None, (g1, w1))"
  shows "u_extent g1 = Some e \<and> u_dimensions g1 = u_dimensions g \<and> u_endpoint g1 = u_endpoint g
       \<and> u_lock_extent g1 = u_lock_extent g \<and> u_lock_gpts g1 = u_lock_gpts g
       \<and> u_lock_sampling g1 = u_lock_sampling g
       \<and> (\<not> u_lock_sampling g \<and> u_gpts g \<noteq> None \<longrightarrow> u_gpts g1 = u_gpts g)"
proof (cases "extent_func A (Seq e) g")
  case (Pair r g')
  with assms have r: "r = None" by (auto simp: set_extent_def watched_method_def split: option.splits)
  with assms Pair obtain ev where "g1 = put_changed ev g'"
    by (auto simp: set_extent_def watched_method_def split: prod.splits)
  with extent_func_returns[of A e g g'] Pair r show ?thesis by (simp add: put_changed_def)
qed

lemma set_gpts_returns:
  assumes "set_gpts A (Seq n) (g, w) = (None, (g1, w1))"
  shows "u_gpts g1 = Some n \<and> u_dimensions g1 = u_dimensions g \<and> u_endpoint g1 = u_endpoint g
       \<and> u_lock_extent g1 = u_lock_extent g \<and> u_lock_gpts g1 = u_lock_gpts g
       \<and> u_lock_sampling g1 = u_lock_sampling g
       \<and> (\<not> u_lock_sampling g \<and> u_extent g \<noteq> None \<longrightarrow> u_extent g1 = u_extent g)"
proof (cases "gpts_func A (Seq n) g")
  case (Pair r g')
  with assms have r: "r = None" by (auto simp: set_gpts_def watched_method_def split: option.splits)
  with assms Pair obtain ev where "g1 = put_changed ev g'"
    by (auto simp: set_gpts_def watched_method_def split: prod.splits)
  with gpts_func_returns[of A n g g'] Pair r show ?thesis by (simp add: put_changed_def)
qed




lemma on_other_self: "on_other p (a, b, w) = (r, (a', b', w')) \<Longrightarrow> a' = a"
  by (auto simp: on_other_def split: prod.splits)

lemmas match_eval = match_def match_extent_def match_gpts_def check_match_def on_self_def
  on_other_def as_arg_def

lemma set_extent_undefined:
  assumes "u_gpts b = None" and "u_sampling b = None" and "\<not> u_lock_extent b"
    and "int (length e) = u_dimensions b"
    and "\<forall>cb\<in>set (callbacks (changed b)). \<forall>n w. fst (cb n w) = None"
  shows "\<exists>b' w'. set_extent A (Seq e) (b, w) = (None, (b', w'))
           \<and> u_extent b' = Some e \<and> u_gpts b' = None
           \<and> notify_count (changed b') = notify_count (changed b) + 1"
proof -
  have f: "extent_func A (Seq e) b = (None, b\<lparr>u_extent := Some e\<rparr>)"
    using assms(1-4) by (simp add: extent_func_def validate_def seq_def adjust_gpts_def adjust_sampling_def)
  obtain w' where n: "notify \<lparr>property_name = ''extent'', change = True\<rparr> (changed b, w)
      = (None, ((changed b)\<lparr>u_notify_count := u_notify_count (changed b) + 1\<rparr>, w'))"
    using notify_quiet[OF assms(5)] by blast
  from f n assms(1) show ?thesis
    by (simp add: set_extent_def watched_method_def put_changed_def notify_count_def)
qed



lemma set_extent_plain:
  fixes a :: "('f, 'w) Grid"
  assumes "\<not> u_lock_extent a" and "\<not> u_lock_sampling a" and "u_gpts a = Some na"
    and "int (length e) = u_dimensions a"
    and "\<forall>n\<in>set na. (if u_endpoint a then n - 1 else n) \<noteq> 0"
    and "\<forall>cb\<in>set (callbacks (changed a)). \<forall>n w. fst (cb n w) = None"
  shows "\<exists>a1 w1. set_extent A (Seq e) (a, w) = (None, (a1, w1))
           \<and> callbacks (changed a1) = callbacks (changed a)"
proof -
  have f: "extent_func A (Seq e) a = (None, a\<lparr>u_sampling := Some (if u_endpoint a
              then map (\<lambda>(l, n). div_int A l (n - 1)) (zip e na)
              else map (\<lambda>(l, n). div_int A l n) (zip e na)), u_extent := Some e\<rparr>)"
    using assms(1-4) adjust_sampling_ok[OF assms(5), of A e]
    by (simp add: extent_func_def validate_def seq_def)
  obtain w' where n: "notify \<lparr>property_name = ''extent'', change = True\<rparr> (changed a, w)
      = (None, ((changed a)\<lparr>u_notify_count := u_notify_count (changed a) + 1\<rparr>, w'))"
    using notify_quiet[OF assms(6)] by blast
  from f n show ?thesis
    by (simp add: set_extent_def watched_method_def put_changed_def)
qed

lemma set_gpts_plain:
  fixes a :: "('f, 'w) Grid"
  assumes "\<not> u_lock_gpts a" and "\<not> u_lock_sampling a" and "u_extent a = Some ea"
    and "int (length ns) = u_dimensions a"
    and "\<forall>n\<in>set ns. (if u_endpoint a then n - 1 else n) \<noteq> 0"
    and "\<forall>cb\<in>set (callbacks (changed a)). \<forall>n w. fst (cb n w) = None"
  shows "\<exists>a1 w1. set_gpts A (Seq ns) (a, w) = (None, (a1, w1))
           \<and> callbacks (changed a1) = callbacks (changed a)"
proof -
  have f: "gpts_func A (Seq ns) a = (None, a\<lparr>u_sampling := Some (if u_endpoint a
              then map (\<lambda>(l, n). div_int A l (n - 1)) (zip ea ns)
              else map (\<lambda>(l, n). div_int A l n) (zip ea ns)), u_gpts := Some ns\<rparr>)"
    using assms(1-4) adjust_sampling_ok[OF assms(5), of A ea]
    by (simp add: gpts_func_def validate_def seq_def)
  obtain w' where n: "notify \<lparr>property_name = ''gpts'', change = True\<rparr> (changed a, w)
      = (None, ((changed a)\<lparr>u_notify_count := u_notify_count (changed a) + 1\<rparr>, w'))"
    using notify_quiet[OF assms(6)] by blast
  from f n show ?thesis
    by (simp add: set_gpts_def watched_method_def put_changed_def)
qed


lemma match_both_defined_returns:
  fixes a b :: "('f, 'w) Grid"
  assumes "u_extent a = Some ea" and "u_gpts a = Some na"
    and "u_extent b = Some eb" and "u_gpts b = Some nb" and "\<not> u_lock_sampling a"
    and "match A False (a, b, w) = (None, (a', b', w'))"
  shows "u_extent a' = Some eb \<and> u_gpts a' = Some nb \<and> b' = b"
proof -
  obtain a1 w1 where x: "match_extent A (a, b, w) = (None, (a1, b, w1))"
      "u_extent a1 = Some eb" "u_gpts a1 = Some na" "\<not> u_lock_sampling a1"
  proof (cases "ea = eb")
    case True
    with assms(1-5) have "match_extent A (a, b, w) = (None, (a, b, w))"
      by (simp add: match_extent_def)
    with True assms(1,2,5) that show ?thesis by simp
  next
    case False
    obtain r1 a1 w1 where s: "set_extent A (Seq eb) (a, w) = (r1, (a1, w1))" by (metis prod.exhaust)
    with False assms(1,3) have m: "match_extent A (a, b, w) = (r1, (a1, b, w1))"
      by (simp add: match_extent_def on_self_def as_arg_def)
    with assms(6) have "r1 = None" by (auto simp: match_def seq_def split: option.splits)
    with s m set_extent_returns[of A eb a w a1 w1] assms(2,5) that show ?thesis by simp
  qed
  from assms(6) x(1) have g: "match_gpts A (a1, b, w1) = (None, (a', b', w'))"
    by (simp add: match_def seq_def)
  show ?thesis
  proof (cases "na = nb")
    case True
    with g x assms(4) show ?thesis by (simp add: match_gpts_def)
  next
    case False
    obtain r2 a2 w2 where s: "set_gpts A (Seq nb) (a1, w1) = (r2, (a2, w2))" by (metis prod.exhaust)
    with False x assms(4) have "match_gpts A (a1, b, w1) = (r2, (a2, b, w2))"
      by (simp add: match_gpts_def on_self_def as_arg_def)
    with g s set_gpts_returns[of A nb a1 w1 a2 w2] x show ?thesis by simp
  qed
qed

lemma match_both_defined_total:
  fixes a b :: "('f, 'w) Grid"
  assumes "u_extent a = Some ea" and "u_gpts a = Some na"
    and "u_extent b = Some eb" and "u_gpts b = Some nb"
    and "\<not> u_lock_extent a" and "\<not> u_lock_gpts a" and "\<not> u_lock_sampling a"
    and "int (length eb) = u_dimensions a" and "int (length nb) = u_dimensions a"
    and "\<forall>n\<in>set na \<union> set nb. (if u_endpoint a then n - 1 else n) \<noteq> 0"
    and "\<forall>cb\<in>set (callbacks (changed a)). \<forall>n w. fst (cb n w) = None"
  shows "\<exists>a' w'. match A False (a, b, w) = (None, (a', b, w'))"
proof -
  obtain a1 w1 where x: "match_extent A (a, b, w) = (None, (a1, b, w1))"
      "u_extent a1 = Some eb" "u_gpts a1 = Some na" "\<not> u_lock_sampling a1" "\<not> u_lock_gpts a1"
      "u_dimensions a1 = u_dimensions a" "u_endpoint a1 = u_endpoint a"
      "callbacks (changed a1) = callbacks (changed a)"
  proof (cases "ea = eb")
    case True
    with assms(1-5) have "match_extent A (a, b, w) = (None, (a, b, w))"
      by (simp add: match_extent_def)
    with True assms that show ?thesis by simp
  next
    case False
    have "\<forall>n\<in>set na. (if u_endpoint a then n - 1 else n) \<noteq> 0" using assms(10) by blast
    from set_extent_plain[OF assms(5,7,2,8) this assms(11), of A w]
    obtain a1 w1 where s: "set_extent A (Seq eb) (a, w) = (None, (a1, w1))"
      "callbacks (changed a1) = callbacks (changed a)" by blast
    with False assms(1,3) have m: "match_extent A (a, b, w) = (None, (a1, b, w1))"
      by (simp add: match_extent_def on_self_def as_arg_def)
    with s set_extent_returns[of A eb a w a1 w1] assms(2,6,7) that show ?thesis by simp
  qed
  show ?thesis
  proof (cases "na = nb")
    case True
    with x assms(4) have "match_gpts A (a1, b, w1) = (None, (a1, b, w1))"
      by (simp add: match_gpts_def)
    with x(1) show ?thesis by (simp add: match_def seq_def)
  next
    case False
    have nz: "\<forall>n\<in>set nb. (if u_endpoint a1 then n - 1 else n) \<noteq> 0" using assms(10) x(7) by auto
    have q: "\<forall>cb\<in>set (callbacks (changed a1)). \<forall>n w. fst (cb n w) = None"
      using assms(11) x(8) by simp
    have l: "int (length nb) = u_dimensions a1" using assms(9) x(6) by simp
    from set_gpts_plain[OF x(5,4,2) l nz q, of A w1]
    obtain a2 w2 where s: "set_gpts A (Seq nb) (a1, w1) = (None, (a2, w2))" by blast
    with False x assms(4) have "match_gpts A (a1, b, w1) = (None, (a2, b, w2))"
      by (simp add: match_gpts_def on_self_def as_arg_def)
    with x(1) show ?thesis by (simp add: match_def seq_def)
  qed
qed

text \<open>
  Claim C5, as the code has it. First: let \<open>a\<close> have a defined extent and undefined
  gpts, and let \<open>b\<close> have extent, gpts and also sampling undefined, an unlocked extent,
  the dimensions of the extent of \<open>a\<close>, and callbacks that do not raise; then
  \<^verbatim>\<open>a.match(b)\<close> raises \<^verbatim>\<open>'Grid gpts cannot be inferred'\<close>. Second: let \<open>a\<close> and \<open>b\<close>
  both have extent and gpts defined, and the sampling of \<open>a\<close> not be locked; then a
  \<^verbatim>\<open>a.match(b)\<close> that returns leaves \<open>a\<close> with the extent and the gpts of \<open>b\<close> and
  leaves \<open>b\<close> unchanged. Third: it does return if moreover \<open>a\<close> has no lock at all,
  the values of \<open>b\<close> have the dimensions of \<open>a\<close>, no division by zero occurs in
  deriving the sampling of \<open>a\<close>, and the callbacks of \<open>a\<close> do not raise.
\<close>

theorem grid_match_cases:
  fixes a b :: "('f, 'w) Grid"
  shows "(u_extent a = Some ea \<and> u_gpts a = None
            \<and> u_extent b = None \<and> u_gpts b = None \<and> u_sampling b = None
            \<and> \<not> u_lock_extent b \<and> int (length ea) = u_dimensions b
            \<and> (\<forall>cb\<in>set (callbacks (changed b)). \<forall>n w. fst (cb n w) = None) \<longrightarrow>
          (\<exists>b' w'. match A chk (a, b, w)
                = (Some (RuntimeError ''Grid gpts cannot be inferred''), (a, b', w'))))
       \<and> (u_extent a = Some ea \<and> u_gpts a = Some na \<and> u_extent b = Some eb \<and> u_gpts b = Some nb
            \<and> \<not> u_lock_sampling a
            \<and> match A False (a, b, w) = (None, (a', b', w')) \<longrightarrow>
          u_extent a' = Some eb \<and> u_gpts a' = Some nb \<and> b' = b)
       \<and> (u_extent a = Some ea \<and> u_gpts a = Some na \<and> u_extent b = Some eb \<and> u_gpts b = Some nb
            \<and> \<not> u_lock_extent a \<and> \<not> u_lock_gpts a \<and> \<not> u_lock_sampling a
            \<and> int (length eb) = u_dimensions a \<and> int (length nb) = u_dimensions a
            \<and> (\<forall>n\<in>set na \<union> set nb. (if u_endpoint a then n - 1 else n) \<noteq> 0)
            \<and> (\<forall>cb\<in>set (callbacks (changed a)). \<forall>n w. fst (cb n w) = None) \<longrightarrow>
          (\<exists>a'' w''. match A False (a, b, w) = (None, (a'', b, w''))
              \<and> u_extent a'' = Some eb \<and> u_gpts a'' = Some nb))"
proof -
  have p1: "\<exists>b' w'. match A chk (a, b, w)
                = (Some (RuntimeError ''Grid gpts cannot be inferred''), (a, b', w'))"
    if h: "u_extent a = Some ea \<and> u_gpts a = None
            \<and> u_extent b = None \<and> u_gpts b = None \<and> u_sampling b = None
            \<and> \<not> u_lock_extent b \<and> int (length ea) = u_dimensions b
            \<and> (\<forall>cb\<in>set (callbacks (changed b)). \<forall>n w. fst (cb n w) = None)"
  proof -
    from h obtain b' w' where s: "set_extent A (Seq ea) (b, w) = (None, (b', w'))"
        "u_extent b' = Some ea" "u_gpts b' = None"
      using set_extent_undefined[of b ea A w] by blast
    from h have chk: "(if chk then check_match else (\<lambda>s. (None, s))) (a, b, w) = (None, (a, b, w))"
      by (simp add: check_match_def)
    from h s have "match_extent A (a, b, w) = (None, (a, b', w'))"
      by (simp add: match_extent_def on_other_def as_arg_def)
    moreover from h s have "match_gpts A (a, b', w')
        = (Some (RuntimeError ''Grid gpts cannot be inferred''), (a, b', w'))"
      by (simp add: match_gpts_def)
    ultimately show ?thesis
      using chk by (simp add: match_def seq_def)
  qed
  have p2: "u_extent a' = Some eb \<and> u_gpts a' = Some nb \<and> b' = b"
    if "u_extent a = Some ea \<and> u_gpts a = Some na \<and> u_extent b = Some eb \<and> u_gpts b = Some nb
            \<and> \<not> u_lock_sampling a
            \<and> match A False (a, b, w) = (None, (a', b', w'))"
    using that match_both_defined_returns[of a ea na b eb nb A w a' b' w'] by blast
  have p3: "\<exists>a'' w''. match A False (a, b, w) = (None, (a'', b, w''))
              \<and> u_extent a'' = Some eb \<and> u_gpts a'' = Some nb"
    if h: "u_extent a = Some ea \<and> u_gpts a = Some na \<and> u_extent b = Some eb \<and> u_gpts b = Some nb
            \<and> \<not> u_lock_extent a \<and> \<not> u_lock_gpts a \<and> \<not> u_lock_sampling a
            \<and> int (length eb) = u_dimensions a \<and> int (length nb) = u_dimensions a
            \<and> (\<forall>n\<in>set na \<union> set nb. (if u_endpoint a then n - 1 else n) \<noteq> 0)
            \<and> (\<forall>cb\<in>set (callbacks (changed a)). \<forall>n w. fst (cb n w) = None)"
  proof -
    from h obtain a2 w2 where m: "match A False (a, b, w) = (None, (a2, b, w2))"
      using match_both_defined_total[of a ea na b eb nb A w] by blast
    with h match_both_defined_returns[of a ea na b eb nb A w a2 b w2]
    show ?thesis by blast
  qed
  from p1 p2 p3 show ?thesis by blast
qed

theorem grid_match_cases_witness:
  "u_extent grid_extent_only = Some [10, 10] \<and> u_gpts grid_extent_only = None
   \<and> u_extent grid_undefined = None \<and> u_gpts grid_undefined = None
   \<and> u_sampling grid_undefined = None
   \<and> \<not> u_lock_extent grid_undefined \<and> int (length [10, 10 :: rat]) = u_dimensions grid_undefined
   \<and> callbacks (changed grid_undefined) = []
   \<and> (\<exists>b' w'. match exact_ops False (grid_extent_only, grid_undefined, ())
         = (Some (RuntimeError ''Grid gpts cannot be inferred''), (grid_extent_only, b', w')))
   \<and> u_extent (grid_10_5 False False False) = Some [10, 10]
   \<and> u_gpts (grid_10_5 False False False) = Some [5, 5]
   \<and> u_extent grid_20_8 = Some [20, 20] \<and> u_gpts grid_20_8 = Some [8, 8]
   \<and> \<not> u_lock_extent (grid_10_5 False False False) \<and> \<not> u_lock_gpts (grid_10_5 False False False)
   \<and> \<not> u_lock_sampling (grid_10_5 False False False)
   \<and> int (length [20, 20 :: rat]) = u_dimensions (grid_10_5 False False False)
   \<and> int (length [8, 8 :: int]) = u_dimensions (grid_10_5 False False False)
   \<and> list_all (\<lambda>n. n \<noteq> 0) ([5, 5] @ [8, 8 :: int])
   \<and> callbacks (changed (grid_10_5 False False False)) = []
   \<and> match exact_ops False (grid_10_5 False False False, grid_20_8, ())
       = (None,
          ((grid_10_5 False False False)\<lparr>changed := \<lparr>callbacks = [], u_notify_count = 2\<rparr>,
             u_extent := Some [20, 20], u_gpts := Some [8, 8], u_sampling := Some [5 / 2, 5 / 2]\<rparr>,
           grid_20_8, ()))
   \<and> (\<exists>a'' w''. match exact_ops False (grid_10_5 False False False, grid_20_8, ())
         = (None, (a'', grid_20_8, w''))
         \<and> u_extent a'' = Some [20, 20] \<and> u_gpts a'' = Some [8, 8])"
proof -
  let ?a = "grid_10_5 False False False"
  let ?a' = "?a\<lparr>changed := \<lparr>callbacks = [], u_notify_count = 2\<rparr>,
             u_extent := Some [20, 20], u_gpts := Some [8, 8], u_sampling := Some [5 / 2, 5 / 2]\<rparr>"
  have h1: "u_extent grid_extent_only = Some [10, 10] \<and> u_gpts grid_extent_only = None
      \<and> u_extent grid_undefined = None \<and> u_gpts grid_undefined = None
      \<and> u_sampling grid_undefined = None
      \<and> \<not> u_lock_extent grid_undefined \<and> int (length [10, 10 :: rat]) = u_dimensions grid_undefined
      \<and> (\<forall>cb\<in>set (callbacks (changed grid_undefined)). \<forall>n w. fst (cb n w) = None)"
    by (simp add: grid_extent_only_def grid_undefined_def Event_init_def)
  have c1: "\<exists>b' w'. match exact_ops False (grid_extent_only, grid_undefined, ())
         = (Some (RuntimeError ''Grid gpts cannot be inferred''), (grid_extent_only, b', w'))"
    using grid_match_cases [of grid_extent_only "[10, 10]" grid_undefined exact_ops False "()"] h1
    by blast
  have run: "match exact_ops False (?a, grid_20_8, ()) = (None, (?a', grid_20_8, ()))"
    by (simp add: grid_20_8_def grid_10_5_def match_eval grid_eval)
  have h3: "u_extent ?a = Some [10, 10] \<and> u_gpts ?a = Some [5, 5]
      \<and> u_extent grid_20_8 = Some [20, 20] \<and> u_gpts grid_20_8 = Some [8, 8]
      \<and> \<not> u_lock_extent ?a \<and> \<not> u_lock_gpts ?a \<and> \<not> u_lock_sampling ?a
      \<and> int (length [20, 20 :: rat]) = u_dimensions ?a \<and> int (length [8, 8 :: int]) = u_dimensions ?a
      \<and> (\<forall>n\<in>set [5, 5] \<union> set [8, 8 :: int]. (if u_endpoint ?a then n - 1 else n) \<noteq> 0)
      \<and> (\<forall>cb\<in>set (callbacks (changed ?a)). \<forall>n w. fst (cb n w) = None)"
    by (simp add: grid_10_5_def grid_20_8_def Event_init_def)
  have c3: "\<exists>a'' w''. match exact_ops False (?a, grid_20_8, ()) = (None, (a'', grid_20_8, w''))
         \<and> u_extent a'' = Some [20, 20] \<and> u_gpts a'' = Some [8, 8]"
    using grid_match_cases [of ?a "[10, 10]" grid_20_8 exact_ops False "()" "[5, 5]" "[20, 20]" "[8, 8]"] h3
    by blast
  have rest: "callbacks (changed grid_undefined) = []" "callbacks (changed ?a) = []"
      "list_all (\<lambda>n. n \<noteq> 0) ([5, 5] @ [8, 8 :: int])"
    by (simp_all add: grid_undefined_def grid_10_5_def Event_init_def)
  from h1 h3 c1 c3 run rest show ?thesis by simp
qed

text \<open>
  Claim C5 as stated fails twice. With \<open>b\<close> = \<^verbatim>\<open>Grid(sampling=0.5)\<close>, whose extent and
  gpts are undefined, \<^verbatim>\<open>Grid(extent=10).match(b)\<close> raises nothing: the extent setter of
  \<open>b\<close> derives gpts \<^verbatim>\<open>(20, 20)\<close> from the sampling, and \<open>a\<close> adopts them. With \<open>a\<close> =
  \<^verbatim>\<open>Grid(extent=1, sampling=0.5, lock_sampling=True)\<close> and \<open>b\<close> =
  \<^verbatim>\<open>Grid(extent=10, gpts=(5, 5))\<close>, after \<^verbatim>\<open>a.match(b)\<close> the extent of \<open>a\<close> is
  \<^verbatim>\<open>(2.5, 2.5)\<close>, not the \<^verbatim>\<open>(10, 10)\<close> of \<open>b\<close>: the gpts setter recomputes the extent
  from the locked sampling.
\<close>

theorem match_infers_or_overrides:
  "u_extent grid_extent_only = Some [10, 10] \<and> u_gpts grid_extent_only = None
   \<and> u_extent grid_sampling_only = None \<and> u_gpts grid_sampling_only = None
   \<and> match exact_ops False (grid_extent_only, grid_sampling_only, ())
       = (None,
          (grid_extent_only\<lparr>changed := \<lparr>callbacks = [], u_notify_count = 1\<rparr>,
             u_gpts := Some [20, 20], u_sampling := Some [1 / 2, 1 / 2]\<rparr>,
           grid_sampling_only\<lparr>changed := \<lparr>callbacks = [], u_notify_count = 1\<rparr>,
             u_extent := Some [10, 10], u_gpts := Some [20, 20], u_sampling := Some [1 / 2, 1 / 2]\<rparr>,
           ()))
   \<and> u_extent grid_locked_sampling = Some [1, 1] \<and> u_gpts grid_locked_sampling = Some [2, 2]
   \<and> u_extent (grid_10_5 False False False) = Some [10, 10]
   \<and> u_gpts (grid_10_5 False False False) = Some [5, 5]
   \<and> match exact_ops False (grid_locked_sampling, grid_10_5 False False False, ())
       = (None,
          (grid_locked_sampling\<lparr>changed := \<lparr>callbacks = [], u_notify_count = 2\<rparr>,
             u_extent := Some [5 / 2, 5 / 2], u_gpts := Some [5, 5]\<rparr>,
           grid_10_5 False False False, ()))"
  by (simp add: grid_extent_only_def grid_sampling_only_def grid_locked_sampling_def grid_10_5_def
      match_eval grid_eval)

section \<open>Properties of memoized computations\<close>

lemma check_size_loop_fits: "len c \<le> m \<Longrightarrow> check_size_loop m c = (None, c)"
  by (subst check_size_loop.simps) simp

lemma insert_c_empty:
  assumes "u_cached c = []" and "\<forall>m. u_max_size c = Some m \<longrightarrow> 1 \<le> m"
  shows "insert_c key val c = (None, c\<lparr>u_cached := [(key, val)]\<rparr>)"
  using assms
  by (cases "u_max_size c") (simp_all add: insert_c_def check_size_def check_size_loop_fits len_def)

lemma memoized_miss:
  assumes "u_cached (get_cache s) = []" and "\<forall>m. u_max_size (get_cache s) = Some m \<longrightarrow> 1 \<le> m"
  shows "memoized fid f s args =
           (Inr (f s args),
            s\<lparr>s_calls := s_calls s + 1,
              s_store := (s_store s)(s_cache s := (get_cache s)\<lparr>u_cached := [((fid, args), f s args)],
                  u_misses := u_misses (get_cache s) + 1\<rparr>)\<rparr>)"
proof -
  have g: "get_cache (s\<lparr>s_calls := n\<rparr>) = get_cache s" for n by (simp add: get_cache_def)
  show ?thesis
    using assms insert_c_empty[OF assms, of "(fid, args)" "f s args"]
    by (simp add: memoized_def cached_method_def counted_def cached_def g put_cache_def)
qed

lemma memoized_hit:
  assumes "u_cached (get_cache s) = [((fid, args), v)]"
  shows "memoized fid f s args =
           (Inr v, s\<lparr>s_store := (s_store s)(s_cache s := (get_cache s)\<lparr>u_hits := u_hits (get_cache s) + 1\<rparr>)\<rparr>)"
  using assms by (simp add: memoized_def cached_method_def cached_def retrieve_def put_cache_def)

lemma assign_grid_clears:
  assumes "callbacks (changed (s_grid s)) = [cache_clear_callback (s_cache s)]"
    and "fst (assign_func A asg (s_grid s)) = None"
  shows "\<exists>g. assign_grid A asg s = (None, s\<lparr>s_grid := g, s_store := (s_store s)(s_cache s := clear (get_cache s))\<rparr>)"
proof -
  obtain g1 where f: "assign_func A asg (s_grid s) = (None, g1)"
    using assms(2) by (cases "assign_func A asg (s_grid s)") simp
  have ch: "changed g1 = changed (s_grid s)" using assign_func_changed[of A asg "s_grid s"] f by simp
  have n: "notify \<lparr>property_name = nm, change = True\<rparr> (changed g1, s_store s)
      = (None, ((changed g1)\<lparr>u_notify_count := u_notify_count (changed g1) + 1\<rparr>,
                (s_store s)(s_cache s := clear (get_cache s))))" for nm
    using assms(1) ch by (simp add: notify_def cache_clear_callback_def get_cache_def)
  have "assign_grid A asg s = (None, s\<lparr>s_grid := put_changed
          ((changed g1)\<lparr>u_notify_count := u_notify_count (changed g1) + 1\<rparr>) g1,
        s_store := (s_store s)(s_cache s := clear (get_cache s))\<rparr>)"
    using f n by (simp add: assign_grid_def assign_watched watched_method_def)
  then show ?thesis by blast
qed

lemmas sim_eval = after_first_def after_second_def after_mutation_def after_third_def
  example_sim_def gpts_times_def memoized_def cached_method_def counted_def get_cache_def
  put_cache_def assign_grid_def insert_c_def check_size_def len_def retrieve_def cached_def
  hits_def misses_def Cache_init_def clear_def cache_clear_callback_def register_def

text \<open>
  Claim C3, as the code has it. Let the object have a new cache (unbounded, or with
  \<^verbatim>\<open>max_size\<close> at least 1) and the cache-clearing callback registered on the event of
  its grid. Two calls of a memoized computation with the same arguments run the
  computation once and both return its result; after them the hit counter is 1 and
  the stored miss counter \<^verbatim>\<open>_misses\<close> is 1. An assignment to the grid whose setter
  returns clears the cache, which also sets both counters to 0. A third call with the
  same arguments then runs the computation again, on the changed object; after it the
  computation has run twice, the hit counter is 0 and the stored miss counter is 1.
\<close>

theorem memoized_recomputes_after_mutation:
  fixes s0 :: "('f, 'i, 'a, 'v) Sim"
  assumes "get_cache s0 = Cache_init ms" and "\<forall>m. ms = Some m \<longrightarrow> 1 \<le> m"
    and "callbacks (changed (s_grid s0)) = [cache_clear_callback (s_cache s0)]"
    and "fst (assign_func A asg (s_grid s0)) = None"
  shows "\<exists>s1 s2 s3 s4.
           memoized fid f s0 args = (Inr (f s0 args), s1)
         \<and> memoized fid f s1 args = (Inr (f s0 args), s2)
         \<and> s_calls s2 = s_calls s0 + 1
         \<and> hits (get_cache s2) = 1 \<and> u_misses (get_cache s2) = 1
         \<and> assign_grid A asg s2 = (None, s3)
         \<and> memoized fid f s3 args = (Inr (f s3 args), s4)
         \<and> s_calls s4 = s_calls s0 + 2
         \<and> hits (get_cache s4) = 0 \<and> u_misses (get_cache s4) = 1"
proof -
  define c1 where "c1 = (Cache_init ms :: ('i \<times> 'a, 'v) Cache)\<lparr>u_cached := [((fid, args), f s0 args)],
      u_misses := 1\<rparr>"
  define s1 where "s1 = s0\<lparr>s_calls := s_calls s0 + 1, s_store := (s_store s0)(s_cache s0 := c1)\<rparr>"
  define s2 where "s2 = s1\<lparr>s_store := (s_store s1)(s_cache s1 := c1\<lparr>u_hits := 1\<rparr>)\<rparr>"
  have m0: "\<forall>m. u_max_size (get_cache s0) = Some m \<longrightarrow> 1 \<le> m"
    using assms(1,2) by (simp add: Cache_init_def)
  have e0: "u_cached (get_cache s0) = []" using assms(1) by (simp add: Cache_init_def)
  have call1: "memoized fid f s0 args = (Inr (f s0 args), s1)"
    using memoized_miss[OF e0 m0, of fid f args] assms(1)
    by (simp add: s1_def c1_def Cache_init_def)
  have g1: "get_cache s1 = c1" by (simp add: s1_def get_cache_def)
  have call2: "memoized fid f s1 args = (Inr (f s0 args), s2)"
    using memoized_hit[of s1 fid args "f s0 args" f] g1
    by (simp add: s2_def c1_def Cache_init_def)
  have g2: "get_cache s2 = c1\<lparr>u_hits := 1\<rparr>" by (simp add: s2_def get_cache_def)
  have grid2: "s_grid s2 = s_grid s0" "s_cache s2 = s_cache s0" "s_calls s2 = s_calls s0 + 1"
    by (simp_all add: s2_def s1_def)
  obtain g where mut: "assign_grid A asg s2
      = (None, s2\<lparr>s_grid := g, s_store := (s_store s2)(s_cache s2 := clear (get_cache s2))\<rparr>)"
    using assign_grid_clears[of s2 A asg] assms(3,4) grid2 by auto
  define s3 where "s3 = s2\<lparr>s_grid := g, s_store := (s_store s2)(s_cache s2 := clear (get_cache s2))\<rparr>"
  have "get_cache s3 = clear (get_cache s2)" by (simp add: s3_def get_cache_def)
  then have g3: "get_cache s3 = Cache_init ms"
    by (simp add: g2 c1_def clear_def Cache_init_def)
  have e3: "u_cached (get_cache s3) = []" and m3: "\<forall>m. u_max_size (get_cache s3) = Some m \<longrightarrow> 1 \<le> m"
    using g3 assms(2) by (simp_all add: Cache_init_def)
  define s4 where "s4 = s3\<lparr>s_calls := s_calls s3 + 1,
              s_store := (s_store s3)(s_cache s3 := (get_cache s3)\<lparr>u_cached := [((fid, args), f s3 args)],
                  u_misses := u_misses (get_cache s3) + 1\<rparr>)\<rparr>"
  have call3: "memoized fid f s3 args = (Inr (f s3 args), s4)"
    unfolding s4_def by (rule memoized_miss[OF e3 m3])
  have "get_cache s4 = (get_cache s3)\<lparr>u_cached := [((fid, args), f s3 args)],
                  u_misses := u_misses (get_cache s3) + 1\<rparr>"
    by (simp add: s4_def get_cache_def)
  then have g4: "get_cache s4 = (Cache_init ms)\<lparr>u_cached := [((fid, args), f s3 args)], u_misses := 1\<rparr>"
    by (simp add: g3 Cache_init_def)
  have calls4: "s_calls s4 = s_calls s0 + 2" by (simp add: s4_def s3_def grid2)
  have "hits (get_cache s2) = 1" "u_misses (get_cache s2) = 1"
    "hits (get_cache s4) = 0" "u_misses (get_cache s4) = 1"
    by (simp_all add: g2 g4 c1_def hits_def Cache_init_def)
  with call1 call2 grid2(3) mut call3 calls4 show ?thesis
    unfolding s3_def[symmetric] by blast
qed

theorem memoized_recomputes_after_mutation_witness:
  "get_cache example_sim = Cache_init (Some 4) \<and> (1 :: int) \<le> 4
   \<and> callbacks (changed (s_grid example_sim)) = [cache_clear_callback (s_cache example_sim)]
   \<and> fst (assign_func exact_ops (Set_gpts (Scalar 8)) (s_grid example_sim)) = None
   \<and> (\<exists>s1 s2 s3 s4.
           memoized 0 gpts_times example_sim 3 = (Inr 15, s1)
         \<and> memoized 0 gpts_times s1 3 = (Inr 15, s2)
         \<and> s_calls s2 = 1
         \<and> hits (get_cache s2) = 1 \<and> u_misses (get_cache s2) = 1
         \<and> assign_grid exact_ops (Set_gpts (Scalar 8)) s2 = (None, s3)
         \<and> (\<exists>v. memoized 0 gpts_times s3 3 = (Inr v, s4))
         \<and> s_calls s4 = 2
         \<and> hits (get_cache s4) = 0 \<and> u_misses (get_cache s4) = 1)"
proof -
  have h1: "get_cache example_sim = Cache_init (Some 4)"
    by (simp add: example_sim_def get_cache_def)
  have h2: "\<forall>m. Some (4 :: int) = Some m \<longrightarrow> 1 \<le> m" by simp
  have h3: "callbacks (changed (s_grid example_sim)) = [cache_clear_callback (s_cache example_sim)]"
    by (simp add: example_sim_def register_def Event_init_def)
  have h4: "fst (assign_func exact_ops (Set_gpts (Scalar 8)) (s_grid example_sim)) = None"
    by (simp add: example_sim_def grid_eval numeral_2_eq_2)
  have v: "gpts_times example_sim 3 = 15" "s_calls example_sim = 0"
    by (simp_all add: gpts_times_def example_sim_def)
  from memoized_recomputes_after_mutation [OF h1 h2 h3 h4, of 0 gpts_times 3]
  obtain s1 s2 s3 s4 where r:
      "memoized 0 gpts_times example_sim 3 = (Inr (gpts_times example_sim 3), s1)"
      "memoized 0 gpts_times s1 3 = (Inr (gpts_times example_sim 3), s2)"
      "s_calls s2 = s_calls example_sim + 1"
      "hits (get_cache s2) = 1" "u_misses (get_cache s2) = 1"
      "assign_grid exact_ops (Set_gpts (Scalar 8)) s2 = (None, s3)"
      "memoized 0 gpts_times s3 3 = (Inr (gpts_times s3 3), s4)"
      "s_calls s4 = s_calls example_sim + 2"
      "hits (get_cache s4) = 0" "u_misses (get_cache s4) = 1"
    by blast
  have "\<exists>v. memoized 0 gpts_times s3 3 = (Inr v, s4)" using r(7) by blast
  with r v have "\<exists>s1 s2 s3 s4.
           memoized 0 gpts_times example_sim 3 = (Inr 15, s1)
         \<and> memoized 0 gpts_times s1 3 = (Inr 15, s2)
         \<and> s_calls s2 = 1
         \<and> hits (get_cache s2) = 1 \<and> u_misses (get_cache s2) = 1
         \<and> assign_grid exact_ops (Set_gpts (Scalar 8)) s2 = (None, s3)
         \<and> (\<exists>v. memoized 0 gpts_times s3 3 = (Inr v, s4))
         \<and> s_calls s4 = 2
         \<and> hits (get_cache s4) = 0 \<and> u_misses (get_cache s4) = 1"
    by (intro exI[of _ s1] exI[of _ s2] exI[of _ s3] exI[of _ s4]) simp
  with h1 h3 h4 show ?thesis by simp
qed

text \<open>
  Claim C3 as stated fails in its last number. On the example object, after the two
  calls the cache reports 1 hit and 1 miss; assigning 8 to the gpts clears the cache;
  after the third call, which recomputes (24 instead of 15), the cache reports 0
  misses and its stored miss counter is 1, not 2.
\<close>

theorem miss_count_after_invalidation:
  "fst (memoized 0 gpts_times example_sim 3) = Inr 15
   \<and> fst (memoized 0 gpts_times after_first 3) = Inr 15
   \<and> s_calls after_second = 1
   \<and> hits (get_cache after_second) = 1 \<and> misses (get_cache after_second) = 1
   \<and> u_gpts (s_grid after_second) = Some [5, 5]
   \<and> fst (assign_grid exact_ops (Set_gpts (Scalar 8)) after_second) = None
   \<and> u_gpts (s_grid after_mutation) = Some [8, 8]
   \<and> fst (memoized 0 gpts_times after_mutation 3) = Inr 24
   \<and> s_calls after_third = 2
   \<and> hits (get_cache after_third) = 0
   \<and> misses (get_cache after_third) = 0
   \<and> u_misses (get_cache after_third) = 1"
  by (simp add: sim_eval check_size_loop.simps grid_eval numeral_2_eq_2)

end
